theory Spec2Isabelle
  imports Complex_Main "HOL-Library.Char_ord" "HOL-Library.List_Lexorder" "HOL-Library.Log_Nat"
begin

section \<open>Tables\<close>

text \<open>
  The reconciliation engine works on pandas tables. A table is held the way pandas holds
  it: an index (one label per row) and an ordered list of labelled columns, each column
  a series with one cell per row. Row \<open>i\<close> of a table is the \<open>i\<close>-th entry of every
  column. A cell is a number, a text or the missing value. Column labels are assumed
  unique and all columns as long as the index (\<open>wf_frame\<close>); the engine's own outputs
  keep that shape.
\<close>

datatype cell = NaN | Num real | Str string

datatype error = KeyError string | ValueError | MergeError

type_synonym series = "cell list"

record frame =
  index :: "nat list"
  cols :: "(string \<times> series) list"

definition columns :: "frame \<Rightarrow> string list" where
  "columns df = map fst (cols df)"

definition nrows :: "frame \<Rightarrow> nat" where
  "nrows df = length (index df)"

definition wf_frame :: "frame \<Rightarrow> bool" where
  "wf_frame df \<longleftrightarrow>
     distinct (columns df) \<and> list_all (\<lambda>c. length (snd c) = nrows df) (cols df)"

definition unique_index :: "frame \<Rightarrow> bool" where
  "unique_index df \<longleftrightarrow> distinct (index df)"

text \<open>\<open>df[c]\<close>: the column labelled \<open>c\<close>, KeyError when there is none.\<close>

definition getitem :: "frame \<Rightarrow> string \<Rightarrow> error + series" where
  "getitem df c = (case map_of (cols df) c of None \<Rightarrow> Inl (KeyError c) | Some d \<Rightarrow> Inr d)"

text \<open>
  Elementwise \<open>==\<close> and \<open>!=\<close> of pandas: a missing value is equal to nothing, itself
  included, and different from everything.
\<close>

definition cell_eq :: "cell \<Rightarrow> cell \<Rightarrow> bool" where
  "cell_eq a b \<longleftrightarrow> a \<noteq> NaN \<and> b \<noteq> NaN \<and> a = b"

definition cell_ne :: "cell \<Rightarrow> cell \<Rightarrow> bool" where
  "cell_ne a b \<longleftrightarrow> a = NaN \<or> b = NaN \<or> a \<noteq> b"

definition eq_scalar :: "series \<Rightarrow> cell \<Rightarrow> bool list" where
  "eq_scalar d v = map (\<lambda>x. cell_eq x v) d"

definition series_eq :: "series \<Rightarrow> series \<Rightarrow> bool list" where
  "series_eq a b = map2 cell_eq a b"

definition series_ne :: "series \<Rightarrow> series \<Rightarrow> bool list" where
  "series_ne a b = map2 cell_ne a b"

definition series_and :: "bool list \<Rightarrow> bool list \<Rightarrow> bool list" where
  "series_and a b = map2 (\<and>) a b"

definition series_or :: "bool list \<Rightarrow> bool list \<Rightarrow> bool list" where
  "series_or a b = map2 (\<or>) a b"

text \<open>\<open>df[mask]\<close>: the rows at which the boolean series holds, index labels kept.\<close>

definition filter_by :: "bool list \<Rightarrow> 'a list \<Rightarrow> 'a list" where
  "filter_by msk xs = map snd (filter fst (zip msk xs))"

definition select_rows :: "bool list \<Rightarrow> frame \<Rightarrow> frame" where
  "select_rows msk df =
     \<lparr>index = filter_by msk (index df),
      cols = map (\<lambda>(n, d). (n, filter_by msk d)) (cols df)\<rparr>"

text \<open>\<open>df[c] = v\<close> with a scalar: the column is overwritten, or appended when new.\<close>

definition setitem :: "frame \<Rightarrow> string \<Rightarrow> cell \<Rightarrow> frame" where
  "setitem df c v =
     (let d = replicate (nrows df) v in
      if c \<in> set (columns df)
      then df\<lparr>cols := map (\<lambda>(n, x). if n = c then (n, d) else (n, x)) (cols df)\<rparr>
      else df\<lparr>cols := cols df @ [(c, d)]\<rparr>)"

section \<open>Configuration\<close>

text \<open>
  The configuration is the dictionary loaded from the configuration file, with the entries the
  engine reads. \<open>merge_key\<close> is one column label; a suffix pair is the two-element list
  of the file.
\<close>

record pair =
  base :: string
  suffixes :: "string \<times> string"

record merge_status =
  both :: string
  left_only :: string
  right_only :: string

record result_labels =
  matched :: string
  only_internal :: string
  only_provider :: string
  mismatched :: string

record config =
  merge_key :: string
  merge_suffixes :: "string \<times> string"
  merge_indicator :: string
  merge_status :: merge_status
  comparison_pairs :: "pair list"
  result_labels :: result_labels
  rename_columns :: "(string \<times> string) list"

definition left_col :: "pair \<Rightarrow> string" where
  "left_col p = base p @ fst (suffixes p)"

definition right_col :: "pair \<Rightarrow> string" where
  "right_col p = base p @ snd (suffixes p)"

section \<open>Classifier\<close>

text \<open>The loop that narrows \<open>match_cond\<close> with one equality series per comparison pair.\<close>

fun match_loop :: "frame \<Rightarrow> pair list \<Rightarrow> bool list \<Rightarrow> error + bool list" where
  "match_loop merged [] cond = Inr cond"
| "match_loop merged (p # ps) cond =
     (case getitem merged (left_col p) of
        Inl e \<Rightarrow> Inl e
      | Inr l \<Rightarrow>
          (case getitem merged (right_col p) of
             Inl e \<Rightarrow> Inl e
           | Inr r \<Rightarrow> match_loop merged ps (series_and cond (series_eq l r))))"

definition match_cond :: "frame \<Rightarrow> config \<Rightarrow> error + bool list" where
  "match_cond merged cfg =
     (case getitem merged (merge_indicator cfg) of
        Inl e \<Rightarrow> Inl e
      | Inr mk \<Rightarrow>
          match_loop merged (comparison_pairs cfg)
            (eq_scalar mk (Str (both (merge_status cfg)))))"

text \<open>The loop that collects one inequality series per comparison pair.\<close>

fun mismatch_pairs :: "frame \<Rightarrow> pair list \<Rightarrow> error + bool list list" where
  "mismatch_pairs merged [] = Inr []"
| "mismatch_pairs merged (p # ps) =
     (case getitem merged (left_col p) of
        Inl e \<Rightarrow> Inl e
      | Inr l \<Rightarrow>
          (case getitem merged (right_col p) of
             Inl e \<Rightarrow> Inl e
           | Inr r \<Rightarrow>
               (case mismatch_pairs merged ps of
                  Inl e \<Rightarrow> Inl e
                | Inr rest \<Rightarrow> Inr (series_ne l r # rest))))"

definition mismatch_cond :: "frame \<Rightarrow> config \<Rightarrow> error + bool list" where
  "mismatch_cond merged cfg =
     (case getitem merged (merge_indicator cfg) of
        Inl e \<Rightarrow> Inl e
      | Inr mk \<Rightarrow>
          (case mismatch_pairs merged (comparison_pairs cfg) of
             Inl e \<Rightarrow> Inl e
           | Inr mps \<Rightarrow>
               (let c0 = eq_scalar mk (Str (both (merge_status cfg))) in
                case mps of
                  [] \<Rightarrow> Inr c0
                | t # rest \<Rightarrow> Inr (series_and c0 (foldl series_or t rest)))))"

definition status_rows :: "frame \<Rightarrow> config \<Rightarrow> string \<Rightarrow> error + frame" where
  "status_rows merged cfg s =
     (case getitem merged (merge_indicator cfg) of
        Inl e \<Rightarrow> Inl e
      | Inr mk \<Rightarrow> Inr (select_rows (eq_scalar mk (Str s)) merged))"

definition classify_merged_rows :: "frame \<Rightarrow> config \<Rightarrow> error + (string \<times> frame) list" where
  "classify_merged_rows merged cfg =
     (case match_cond merged cfg of
        Inl e \<Rightarrow> Inl e
      | Inr mc \<Rightarrow>
     (case status_rows merged cfg (left_only (merge_status cfg)) of
        Inl e \<Rightarrow> Inl e
      | Inr oi \<Rightarrow>
     (case status_rows merged cfg (right_only (merge_status cfg)) of
        Inl e \<Rightarrow> Inl e
      | Inr op \<Rightarrow>
     (case mismatch_cond merged cfg of
        Inl e \<Rightarrow> Inl e
      | Inr mmc \<Rightarrow>
          Inr [(''matched'',
                  setitem (select_rows mc merged) ''result''
                    (Str (matched (result_labels cfg)))),
               (''only_internal'',
                  setitem oi ''result'' (Str (only_internal (result_labels cfg)))),
               (''only_provider'',
                  setitem op ''result'' (Str (only_provider (result_labels cfg)))),
               (''mismatched'',
                  setitem (select_rows mmc merged) ''result''
                    (Str (mismatched (result_labels cfg))))]))))"

section \<open>Finalizer\<close>

text \<open>\<open>df.rename(columns=mapping)\<close>: a label the mapping has is replaced, any other is kept.\<close>

definition rename_label :: "(string \<times> string) list \<Rightarrow> string \<Rightarrow> string" where
  "rename_label ren c = (case map_of ren c of None \<Rightarrow> c | Some c' \<Rightarrow> c')"

text \<open>
  \<open>df[labels]\<close> with a list of labels: for each label in turn every column that carries
  it, KeyError for a label no column carries. The error stands for the one pandas raises,
  whose message lists the labels not found; here it carries the first of them.
\<close>

fun select_cols :: "(string \<times> series) list \<Rightarrow> string list \<Rightarrow> error + (string \<times> series) list" where
  "select_cols cs [] = Inr []"
| "select_cols cs (c # rest) =
     (case filter (\<lambda>x. fst x = c) cs of
        [] \<Rightarrow> Inl (KeyError c)
      | h # hs \<Rightarrow>
          (case select_cols cs rest of
             Inl e \<Rightarrow> Inl e
           | Inr r \<Rightarrow> Inr ((h # hs) @ r)))"

text \<open>The body of the loop of \<open>finalize_results\<close>, for one category table.\<close>

definition finalize_df :: "config \<Rightarrow> frame \<Rightarrow> error + frame" where
  "finalize_df cfg df =
     (let cols0 = filter (\<lambda>c. c \<noteq> merge_indicator cfg) (columns df);
          cols1 = (if ''result'' \<in> set cols0 then cols0 else cols0 @ [''result''])
      in case select_cols (cols df) cols1 of
           Inl e \<Rightarrow> Inl e
         | Inr sel \<Rightarrow>
             Inr \<lparr>index = index df,
                  cols = map (\<lambda>(n, d). (rename_label (rename_columns cfg) n, d)) sel\<rparr>)"

fun finalize_loop :: "config \<Rightarrow> (string \<times> frame) list \<Rightarrow> error + (string \<times> frame) list" where
  "finalize_loop cfg [] = Inr []"
| "finalize_loop cfg ((key, df) # rest) =
     (case finalize_df cfg df of
        Inl e \<Rightarrow> Inl e
      | Inr df' \<Rightarrow>
          (case finalize_loop cfg rest of
             Inl e \<Rightarrow> Inl e
           | Inr final \<Rightarrow> Inr ((key, df') # final)))"

definition finalize_results :: "(string \<times> frame) list \<Rightarrow> config \<Rightarrow> error + (string \<times> frame) list" where
  "finalize_results results cfg = finalize_loop cfg results"

section \<open>Merger\<close>

text \<open>
  \<open>merge_dataframes\<close> is one call of the pandas outer merge on the key column, with
  suffixes and an indicator column. The join of pandas is written out: the distinct key
  values of both sides in sorted order (numbers before texts before the missing value),
  and for each key value the left rows that carry it paired with the right rows that
  carry it; a key value one side lacks gives rows with no partner. Key values are
  matched by identity of the value, so two missing keys match each other. (pandas
  compares an integer key column with a floating-point one as floating-point numbers;
  that is the identity of the value for every key that 64-bit floating point holds
  exactly, \<open>exact_key\<close> below.)
\<close>

fun cell_le :: "cell \<Rightarrow> cell \<Rightarrow> bool" where
  "cell_le (Num a) (Num b) = (a \<le> b)"
| "cell_le (Num a) (Str b) = True"
| "cell_le (Str a) (Num b) = False"
| "cell_le (Str a) (Str b) = (a \<le> b)"
| "cell_le NaN (Num b) = False"
| "cell_le NaN (Str b) = False"
| "cell_le x NaN = True"

fun insert_key :: "cell \<Rightarrow> cell list \<Rightarrow> cell list" where
  "insert_key k [] = [k]"
| "insert_key k (x # xs) = (if cell_le k x then k # x # xs else x # insert_key k xs)"

fun sort_keys :: "cell list \<Rightarrow> cell list" where
  "sort_keys [] = []"
| "sort_keys (k # ks) = insert_key k (sort_keys ks)"

definition positions :: "cell \<Rightarrow> series \<Rightarrow> nat list" where
  "positions k xs = filter (\<lambda>i. xs ! i = k) [0..<length xs]"

definition key_group :: "cell \<Rightarrow> series \<Rightarrow> series \<Rightarrow> (nat option \<times> nat option) list" where
  "key_group k lk rk =
     (let li = positions k lk; ri = positions k rk in
      if ri = [] then map (\<lambda>i. (Some i, None)) li
      else if li = [] then map (\<lambda>j. (None, Some j)) ri
      else concat (map (\<lambda>i. map (\<lambda>j. (Some i, Some j)) ri) li))"

definition join_indexers :: "series \<Rightarrow> series \<Rightarrow> (nat option \<times> nat option) list" where
  "join_indexers lk rk = concat (map (\<lambda>k. key_group k lk rk) (sort_keys (remdups (lk @ rk))))"

text \<open>
  A column is a text column when it holds a text, and a numeric column otherwise, as in
  a table read from a file, where a column that holds a text holds no number. pandas
  refuses to merge a text key column with a numeric one unless one of the two is empty.
  A column without rows has no kind to read off its cells; read from a file that has
  only the header line it has the same dtype in every dataset, so two key columns
  without rows are compatible.
\<close>

fun is_text :: "cell \<Rightarrow> bool" where
  "is_text (Str s) = True"
| "is_text c = False"

definition text_column :: "series \<Rightarrow> bool" where
  "text_column d = list_ex is_text d"

definition keys_compatible :: "series \<Rightarrow> series \<Rightarrow> bool" where
  "keys_compatible lk rk \<longleftrightarrow> lk = [] \<or> rk = [] \<or> text_column lk = text_column rk"

text \<open>
  A number cell stands for the number it holds, whole or not. A numeric column of one
  side that takes a missing value in the merged table, because some row has no partner
  on that side, is held as 64-bit floating point from then on; that changes a cell only
  where it rounds, which is at whole numbers of more than 53 binary digits. \<open>round53\<close>
  is the nearest whole number of at most 53 significant binary digits, ties to the even
  one. A number that is not whole is taken to be floating point already. A text column
  takes the missing value as it is.
\<close>

definition round53 :: "int \<Rightarrow> int" where
  "round53 n =
     (if \<bar>n\<bar> < 2 ^ 53 then n
      else (let e = nat (bitlen \<bar>n\<bar> - 53);
                q = \<bar>n\<bar> div 2 ^ e;
                r = \<bar>n\<bar> mod 2 ^ e;
                h = 2 ^ (e - 1)
            in sgn n * (if r < h \<or> (r = h \<and> even q) then q else q + 1) * 2 ^ e))"

fun upcast :: "cell \<Rightarrow> cell" where
  "upcast (Num x) = Num (if of_int \<lfloor>x\<rfloor> = x then of_int (round53 \<lfloor>x\<rfloor>) else x)"
| "upcast c = c"

text \<open>A column of one side in the merged table: the missing value where the side has no row.\<close>

definition take_fill :: "series \<Rightarrow> nat option list \<Rightarrow> series" where
  "take_fill d ix =
     (let v = map (\<lambda>oi. case oi of None \<Rightarrow> NaN | Some i \<Rightarrow> d ! i) ix
      in if None \<in> set ix \<and> \<not> text_column d then map upcast v else v)"

fun key_value :: "series \<Rightarrow> series \<Rightarrow> nat option \<times> nat option \<Rightarrow> cell" where
  "key_value lk rk (Some i, _) = lk ! i"
| "key_value lk rk (None, Some j) = rk ! j"
| "key_value lk rk (None, None) = NaN"

fun indicator_value :: "nat option \<times> nat option \<Rightarrow> cell" where
  "indicator_value (Some i, Some j) = Str ''both''"
| "indicator_value (Some i, None) = Str ''left_only''"
| "indicator_value (None, Some j) = Str ''right_only''"
| "indicator_value (None, None) = NaN"

definition suffixed :: "string list \<Rightarrow> string \<Rightarrow> string \<Rightarrow> string" where
  "suffixed to_rename suffix c = (if c \<in> set to_rename then c @ suffix else c)"

text \<open>
  The labels that suffixing made equal to an earlier label of the same side, where the
  names of that side were not equal already.
\<close>

definition new_dups :: "string list \<Rightarrow> string list \<Rightarrow> string list" where
  "new_dups labels names =
     map (\<lambda>i. labels ! i)
       (filter (\<lambda>i. labels ! i \<in> set (take i labels) \<and> names ! i \<notin> set (take i names))
          [0..<length labels])"

definition side_cols ::
  "string \<Rightarrow> string list \<Rightarrow> string \<Rightarrow> series \<Rightarrow> series \<Rightarrow> (nat option \<times> nat option) list \<Rightarrow>
   ((nat option \<times> nat option) \<Rightarrow> nat option) \<Rightarrow> (string \<times> series) list \<Rightarrow> (string \<times> series) list" where
  "side_cols on to_rename suffix lk rk ix side cs =
     map (\<lambda>(n, d). if n = on then (n, map (key_value lk rk) ix)
                    else (suffixed to_rename suffix n, take_fill d (map side ix))) cs"

text \<open>\<open>df[c] = series\<close>: the column is overwritten, or appended when new.\<close>

definition assign :: "frame \<Rightarrow> string \<Rightarrow> series \<Rightarrow> frame" where
  "assign df c d =
     (if c \<in> set (columns df)
      then df\<lparr>cols := map (\<lambda>(n, x). if n = c then (n, d) else (n, x)) (cols df)\<rparr>
      else df\<lparr>cols := cols df @ [(c, d)]\<rparr>)"

text \<open>
  The failures of the call come in the order of pandas: the KeyError for a key that is
  not a column (the only error the function catches; it logs it and raises it again
  unchanged), then the ValueError for key columns of different kinds, the ValueError for
  an indicator name (or one of the two names pandas reserves for its own marker columns
  while it merges) that is already a column, the ValueError for overlapping columns with
  two empty suffixes, and the MergeError for suffixes that make a label equal to another
  label of its side or to a column of the other side that is not renamed. The last two
  are looked at only when the two sides share a column name other than the key. The key
  column is dropped from the provider side and stands where the internal table has it;
  the indicator column is assigned last. A cell is read at a row position only below the
  length of the key column, which in a well-formed table is the length of every column.
\<close>

definition merge_dataframes :: "frame \<Rightarrow> frame \<Rightarrow> config \<Rightarrow> error + frame" where
  "merge_dataframes df_internal df_provider cfg =
     (let on = merge_key cfg; ind = merge_indicator cfg in
      case getitem df_provider on of
        Inl e \<Rightarrow> Inl e
      | Inr rk \<Rightarrow>
     (case getitem df_internal on of
        Inl e \<Rightarrow> Inl e
      | Inr lk \<Rightarrow>
          (let lcols = cols df_internal;
               rcols = filter (\<lambda>c. fst c \<noteq> on) (cols df_provider);
               names = columns df_internal @ columns df_provider;
               lnames = map fst lcols @ [''_left_indicator''];
               rnames = map fst rcols @ [''_right_indicator''];
               to_rename = filter (\<lambda>c. c \<in> set rnames) lnames;
               llabels = map (suffixed to_rename (fst (merge_suffixes cfg))) lnames;
               rlabels = map (suffixed to_rename (snd (merge_suffixes cfg))) rnames;
               dups = new_dups llabels lnames @ new_dups rlabels rnames
                    @ filter (\<lambda>l. l \<in> set rnames \<and> l \<notin> set to_rename) llabels
                    @ filter (\<lambda>l. l \<in> set lnames \<and> l \<notin> set to_rename) rlabels;
               ix = join_indexers lk rk
           in if \<not> keys_compatible lk rk then Inl ValueError
              else if ''_left_indicator'' \<in> set names \<or> ''_right_indicator'' \<in> set names
                 \<or> ind \<in> set names then Inl ValueError
              else if to_rename \<noteq> [] \<and> fst (merge_suffixes cfg) = [] \<and> snd (merge_suffixes cfg) = []
                then Inl ValueError
              else if to_rename \<noteq> [] \<and> dups \<noteq> [] then Inl MergeError
              else Inr (assign
                     \<lparr>index = [0..<length ix],
                      cols = side_cols on to_rename (fst (merge_suffixes cfg)) lk rk ix fst lcols
                           @ side_cols on to_rename (snd (merge_suffixes cfg)) lk rk ix snd rcols\<rparr>
                     ind (map indicator_value ix)))))"

section \<open>Reconciler\<close>

text \<open>\<open>Reconciler.reconcile\<close>, with the configuration the constructor loaded.\<close>

definition reconcile :: "config \<Rightarrow> frame \<Rightarrow> frame \<Rightarrow> error + (string \<times> frame) list" where
  "reconcile cfg df_internal df_provider =
     (case merge_dataframes df_internal df_provider cfg of
        Inl e \<Rightarrow> Inl e
      | Inr merged \<Rightarrow>
          (case classify_merged_rows merged cfg of
             Inl e \<Rightarrow> Inl e
           | Inr results \<Rightarrow> finalize_results results cfg))"

section \<open>The pipeline on a store of tables\<close>

text \<open>
  The pipeline once more, with the tables as objects in a store and the functions
  passing their addresses, to tell the operations that build a new table from those
  that change one in place. A new table is what the pandas merge, the selection of rows
  by a boolean series, \<open>copy\<close> and the selection of columns by a list of labels
  return; the assignment of the result column and \<open>rename\<close> with \<open>inplace=True\<close>
  change the table they are applied to. The boolean series of the classifier are built
  by comparisons, which give new series; they are kept as values.
\<close>

type_synonym store = "frame list"

definition alloc :: "store \<Rightarrow> frame \<Rightarrow> nat \<times> store" where
  "alloc s f = (length s, s @ [f])"

definition update :: "store \<Rightarrow> nat \<Rightarrow> frame \<Rightarrow> store" where
  "update s a f = s[a := f]"

definition merge_dataframes_st ::
  "store \<Rightarrow> nat \<Rightarrow> nat \<Rightarrow> config \<Rightarrow> (error + nat) \<times> store" where
  "merge_dataframes_st s df_internal df_provider cfg =
     (case merge_dataframes (s ! df_internal) (s ! df_provider) cfg of
        Inl e \<Rightarrow> (Inl e, s)
      | Inr merged \<Rightarrow> (let (a, s1) = alloc s merged in (Inr a, s1)))"

definition tag_st :: "store \<Rightarrow> nat \<Rightarrow> bool list \<Rightarrow> cell \<Rightarrow> nat \<times> store" where
  "tag_st s merged msk label =
     (let (a1, s1) = alloc s (select_rows msk (s ! merged));
          (a2, s2) = alloc s1 (s1 ! a1)
      in (a2, update s2 a2 (setitem (s2 ! a2) ''result'' label)))"

definition classify_merged_rows_st ::
  "store \<Rightarrow> nat \<Rightarrow> config \<Rightarrow> (error + (string \<times> nat) list) \<times> store" where
  "classify_merged_rows_st s merged cfg =
     (case match_cond (s ! merged) cfg of
        Inl e \<Rightarrow> (Inl e, s)
      | Inr mc \<Rightarrow>
     (let (m, s1) = tag_st s merged mc (Str (matched (result_labels cfg))) in
      case getitem (s1 ! merged) (merge_indicator cfg) of
        Inl e \<Rightarrow> (Inl e, s1)
      | Inr mk1 \<Rightarrow>
     (let (oi, s2) = tag_st s1 merged (eq_scalar mk1 (Str (left_only (merge_status cfg))))
                       (Str (only_internal (result_labels cfg))) in
      case getitem (s2 ! merged) (merge_indicator cfg) of
        Inl e \<Rightarrow> (Inl e, s2)
      | Inr mk2 \<Rightarrow>
     (let (op, s3) = tag_st s2 merged (eq_scalar mk2 (Str (right_only (merge_status cfg))))
                       (Str (only_provider (result_labels cfg))) in
      case mismatch_cond (s3 ! merged) cfg of
        Inl e \<Rightarrow> (Inl e, s3)
      | Inr mmc \<Rightarrow>
     (let (mm, s4) = tag_st s3 merged mmc (Str (mismatched (result_labels cfg))) in
      (Inr [(''matched'', m), (''only_internal'', oi), (''only_provider'', op),
            (''mismatched'', mm)], s4))))))"

definition rename_frame :: "(string \<times> string) list \<Rightarrow> frame \<Rightarrow> frame" where
  "rename_frame ren df = df\<lparr>cols := map (\<lambda>(n, d). (rename_label ren n, d)) (cols df)\<rparr>"

fun finalize_loop_st ::
  "config \<Rightarrow> (string \<times> nat) list \<Rightarrow> store \<Rightarrow> (error + (string \<times> nat) list) \<times> store" where
  "finalize_loop_st cfg [] s = (Inr [], s)"
| "finalize_loop_st cfg ((key, a) # rest) s =
     (let df = s ! a;
          cols0 = filter (\<lambda>c. c \<noteq> merge_indicator cfg) (columns df);
          cols1 = (if ''result'' \<in> set cols0 then cols0 else cols0 @ [''result''])
      in case select_cols (cols df) cols1 of
           Inl e \<Rightarrow> (Inl e, s)
         | Inr sel \<Rightarrow>
             (let (a1, s1) = alloc s \<lparr>index = index df, cols = sel\<rparr>;
                  s2 = update s1 a1 (rename_frame (rename_columns cfg) (s1 ! a1))
              in case finalize_loop_st cfg rest s2 of
                   (Inl e, s3) \<Rightarrow> (Inl e, s3)
                 | (Inr final, s3) \<Rightarrow> (Inr ((key, a1) # final), s3)))"

definition finalize_results_st ::
  "store \<Rightarrow> (string \<times> nat) list \<Rightarrow> config \<Rightarrow> (error + (string \<times> nat) list) \<times> store" where
  "finalize_results_st s results cfg = finalize_loop_st cfg results s"

definition reconcile_st ::
  "config \<Rightarrow> store \<Rightarrow> nat \<Rightarrow> nat \<Rightarrow> (error + (string \<times> nat) list) \<times> store" where
  "reconcile_st cfg s df_internal df_provider =
     (case merge_dataframes_st s df_internal df_provider cfg of
        (Inl e, s1) \<Rightarrow> (Inl e, s1)
      | (Inr merged, s1) \<Rightarrow>
          (case classify_merged_rows_st s1 merged cfg of
             (Inl e, s2) \<Rightarrow> (Inl e, s2)
           | (Inr results, s2) \<Rightarrow> finalize_results_st s2 results cfg))"

section \<open>Vocabulary of the specification\<close>

text \<open>
  A row of a table is named by its index label. \<open>value_at\<close> reads one cell;
  \<open>origin_is\<close> says that the origin marker of row \<open>i\<close> is the given status;
  \<open>pair_equal\<close> says that the two columns of a comparison pair hold equal values in
  row \<open>i\<close>, with the equality of the data (a missing value equals nothing);
  \<open>category_rows\<close> is the set of rows a category table of the result holds.
\<close>

definition value_at :: "frame \<Rightarrow> string \<Rightarrow> nat \<Rightarrow> cell option" where
  "value_at df c i =
     (case map_of (cols df) c of
        None \<Rightarrow> None
      | Some d \<Rightarrow> if i < length d then Some (d ! i) else None)"

definition origin_is :: "frame \<Rightarrow> config \<Rightarrow> string \<Rightarrow> nat \<Rightarrow> bool" where
  "origin_is merged cfg s i \<longleftrightarrow> value_at merged (merge_indicator cfg) i = Some (Str s)"

definition pair_equal :: "frame \<Rightarrow> pair \<Rightarrow> nat \<Rightarrow> bool" where
  "pair_equal merged p i \<longleftrightarrow>
     (case (value_at merged (left_col p) i, value_at merged (right_col p) i) of
        (Some a, Some b) \<Rightarrow> cell_eq a b
      | _ \<Rightarrow> False)"

definition category_rows :: "(string \<times> frame) list \<Rightarrow> string \<Rightarrow> nat set" where
  "category_rows res k = (case map_of res k of None \<Rightarrow> {} | Some df \<Rightarrow> set (index df))"

definition category_names :: "string list" where
  "category_names = [''matched'', ''only_internal'', ''only_provider'', ''mismatched'']"

definition origin_rows :: "frame \<Rightarrow> config \<Rightarrow> string \<Rightarrow> nat set" where
  "origin_rows merged cfg s =
     set (map (\<lambda>i. index merged ! i) (filter (origin_is merged cfg s) [0..<nrows merged]))"

text \<open>
  The label under which a column of one side that is not the key appears in the merged
  table (suffixed when the other side has a column of the same name), and the number of
  rows of a table whose key column holds a given key value.
\<close>

definition internal_label :: "config \<Rightarrow> frame \<Rightarrow> string \<Rightarrow> string" where
  "internal_label cfg df_provider n =
     (if n \<in> set (columns df_provider) then n @ fst (merge_suffixes cfg) else n)"

definition provider_label :: "config \<Rightarrow> frame \<Rightarrow> string \<Rightarrow> string" where
  "provider_label cfg df_internal n =
     (if n \<in> set (columns df_internal) then n @ snd (merge_suffixes cfg) else n)"

definition key_count :: "frame \<Rightarrow> string \<Rightarrow> cell \<Rightarrow> nat" where
  "key_count df on k = (case map_of (cols df) on of None \<Rightarrow> 0 | Some d \<Rightarrow> count_list d k)"

text \<open>
  The labels of the merged table: those of the internal columns other than the key, those
  of the provider columns other than the key, the key and the indicator. A configuration
  fits two datasets when both have the key column, neither has a column named like the
  indicator or like the two columns pandas reserves while merging
  (\<open>_left_indicator\<close>, \<open>_right_indicator\<close>), the labels of the merged table and the two
  reserved names are all different, and every comparison pair names a column both
  datasets have, other than the key, with the suffixes of the merge.
\<close>

definition merged_labels :: "config \<Rightarrow> frame \<Rightarrow> frame \<Rightarrow> string list" where
  "merged_labels cfg df_internal df_provider =
     map (internal_label cfg df_provider)
       (filter (\<lambda>n. n \<noteq> merge_key cfg) (columns df_internal))
     @ map (provider_label cfg df_internal)
       (filter (\<lambda>n. n \<noteq> merge_key cfg) (columns df_provider))
     @ [merge_key cfg, merge_indicator cfg]"

definition config_fits :: "config \<Rightarrow> frame \<Rightarrow> frame \<Rightarrow> bool" where
  "config_fits cfg df_internal df_provider \<longleftrightarrow>
     merge_key cfg \<in> set (columns df_internal) \<and> merge_key cfg \<in> set (columns df_provider) \<and>
     list_all (\<lambda>n. n \<notin> set (columns df_internal) \<and> n \<notin> set (columns df_provider))
       [merge_indicator cfg, ''_left_indicator'', ''_right_indicator''] \<and>
     distinct (merged_labels cfg df_internal df_provider
               @ [''_left_indicator'', ''_right_indicator'']) \<and>
     list_all (\<lambda>p. base p \<in> set (columns df_internal) \<and> base p \<in> set (columns df_provider) \<and>
                     base p \<noteq> merge_key cfg \<and> suffixes p = merge_suffixes cfg)
       (comparison_pairs cfg)"

text \<open>
  The value a cell of an input column has in the merged table: the cell itself, converted
  to floating point when the column is numeric and the merge puts a missing value into
  it (\<open>fill\<close>).
\<close>

definition carried :: "bool \<Rightarrow> series \<Rightarrow> cell \<Rightarrow> cell" where
  "carried fill d c = (if fill \<and> \<not> text_column d then upcast c else c)"

text \<open>
  A key value that 64-bit floating point holds exactly: a text, the missing value, a
  number that is not whole, or a whole number that \<open>round53\<close> leaves as it is.
\<close>

definition exact_key :: "cell \<Rightarrow> bool" where
  "exact_key k \<longleftrightarrow> upcast k = k"

text \<open>
  The tables a dictionary of addresses stands for, and the relation of a store to a later
  one that holds every earlier table unchanged at its address.
\<close>

definition deref :: "store \<Rightarrow> (string \<times> nat) list \<Rightarrow> (string \<times> frame) list" where
  "deref s refs = map (\<lambda>(key, a). (key, s ! a)) refs"

definition extends :: "store \<Rightarrow> store \<Rightarrow> bool" where
  "extends s s' \<longleftrightarrow> length s \<le> length s' \<and> take (length s) s' = s"

section \<open>Example inputs\<close>

text \<open>
  A configuration in the shape the tool is run with: the reference column as merge key,
  the amount as the one compared field. \<open>merged_ex\<close> is a merged table with one row of
  each kind: equal amounts on both sides, amounts missing on both sides, internal only,
  provider only.
\<close>

definition cfg_ex :: config where
  "cfg_ex = \<lparr>merge_key = ''ref'', merge_suffixes = (''_internal'', ''_provider''),
     merge_indicator = ''_merge'',
     merge_status = \<lparr>both = ''both'', left_only = ''left_only'', right_only = ''right_only''\<rparr>,
     comparison_pairs = [\<lparr>base = ''amount'', suffixes = (''_internal'', ''_provider'')\<rparr>],
     result_labels = \<lparr>matched = ''Matched'', only_internal = ''Only Internal'',
       only_provider = ''Only Provider'', mismatched = ''Mismatched''\<rparr>,
     rename_columns = [(''ref'', ''Reference'')]\<rparr>"

definition merged_ex :: frame where
  "merged_ex = \<lparr>index = [0, 1, 2, 3],
     cols = [(''ref'', [Str ''T1'', Str ''T2'', Str ''T3'', Str ''T4'']),
             (''amount_internal'', [Num 10, NaN, Num 5, NaN]),
             (''amount_provider'', [Num 10, NaN, NaN, Num 7]),
             (''_merge'', [Str ''both'', Str ''both'', Str ''left_only'', Str ''right_only''])]\<rparr>"

definition classified_ex :: "(string \<times> frame) list" where
  "classified_ex =
     [(''matched'',
       \<lparr>index = [0],
        cols = [(''ref'', [Str ''T1'']), (''amount_internal'', [Num 10]),
                (''amount_provider'', [Num 10]), (''_merge'', [Str ''both'']),
                (''result'', [Str ''Matched''])]\<rparr>),
      (''only_internal'',
       \<lparr>index = [2],
        cols = [(''ref'', [Str ''T3'']), (''amount_internal'', [Num 5]),
                (''amount_provider'', [NaN]), (''_merge'', [Str ''left_only'']),
                (''result'', [Str ''Only Internal''])]\<rparr>),
      (''only_provider'',
       \<lparr>index = [3],
        cols = [(''ref'', [Str ''T4'']), (''amount_internal'', [NaN]),
                (''amount_provider'', [Num 7]), (''_merge'', [Str ''right_only'']),
                (''result'', [Str ''Only Provider''])]\<rparr>),
      (''mismatched'',
       \<lparr>index = [1],
        cols = [(''ref'', [Str ''T2'']), (''amount_internal'', [NaN]),
                (''amount_provider'', [NaN]), (''_merge'', [Str ''both'']),
                (''result'', [Str ''Mismatched''])]\<rparr>)]"

text \<open>
  The same configuration with \<open>BOTH\<close> as the status of the rows present on both sides,
  a value the merge never writes, and what the classifier returns on \<open>merged_ex\<close> under
  it.
\<close>

definition cfg_upper_ex :: config where
  "cfg_upper_ex = \<lparr>merge_key = ''ref'', merge_suffixes = (''_internal'', ''_provider''),
     merge_indicator = ''_merge'',
     merge_status = \<lparr>both = ''BOTH'', left_only = ''left_only'', right_only = ''right_only''\<rparr>,
     comparison_pairs = [\<lparr>base = ''amount'', suffixes = (''_internal'', ''_provider'')\<rparr>],
     result_labels = \<lparr>matched = ''Matched'', only_internal = ''Only Internal'',
       only_provider = ''Only Provider'', mismatched = ''Mismatched''\<rparr>,
     rename_columns = [(''ref'', ''Reference'')]\<rparr>"

definition classified_upper_ex :: "(string \<times> frame) list" where
  "classified_upper_ex =
     [(''matched'',
       \<lparr>index = [],
        cols = [(''ref'', []), (''amount_internal'', []),
                (''amount_provider'', []), (''_merge'', []), (''result'', [])]\<rparr>),
      (''only_internal'',
       \<lparr>index = [2],
        cols = [(''ref'', [Str ''T3'']), (''amount_internal'', [Num 5]),
                (''amount_provider'', [NaN]), (''_merge'', [Str ''left_only'']),
                (''result'', [Str ''Only Internal''])]\<rparr>),
      (''only_provider'',
       \<lparr>index = [3],
        cols = [(''ref'', [Str ''T4'']), (''amount_internal'', [NaN]),
                (''amount_provider'', [Num 7]), (''_merge'', [Str ''right_only'']),
                (''result'', [Str ''Only Provider''])]\<rparr>),
      (''mismatched'',
       \<lparr>index = [],
        cols = [(''ref'', []), (''amount_internal'', []),
                (''amount_provider'', []), (''_merge'', []), (''result'', [])]\<rparr>)]"

text \<open>
  What the classifier returns on \<open>merged_ex\<close> when the list of comparison pairs is
  empty, and the finalized form of \<open>classified_ex\<close>.
\<close>

definition classified_no_pairs_ex :: "(string \<times> frame) list" where
  "classified_no_pairs_ex =
     [(''matched'',
       \<lparr>index = [0, 1],
        cols = [(''ref'', [Str ''T1'', Str ''T2'']), (''amount_internal'', [Num 10, NaN]),
                (''amount_provider'', [Num 10, NaN]), (''_merge'', [Str ''both'', Str ''both'']),
                (''result'', [Str ''Matched'', Str ''Matched''])]\<rparr>),
      (''only_internal'',
       \<lparr>index = [2],
        cols = [(''ref'', [Str ''T3'']), (''amount_internal'', [Num 5]),
                (''amount_provider'', [NaN]), (''_merge'', [Str ''left_only'']),
                (''result'', [Str ''Only Internal''])]\<rparr>),
      (''only_provider'',
       \<lparr>index = [3],
        cols = [(''ref'', [Str ''T4'']), (''amount_internal'', [NaN]),
                (''amount_provider'', [Num 7]), (''_merge'', [Str ''right_only'']),
                (''result'', [Str ''Only Provider''])]\<rparr>),
      (''mismatched'',
       \<lparr>index = [0, 1],
        cols = [(''ref'', [Str ''T1'', Str ''T2'']), (''amount_internal'', [Num 10, NaN]),
                (''amount_provider'', [Num 10, NaN]), (''_merge'', [Str ''both'', Str ''both'']),
                (''result'', [Str ''Mismatched'', Str ''Mismatched''])]\<rparr>)]"

definition finalized_ex :: "(string \<times> frame) list" where
  "finalized_ex =
     [(''matched'',
       \<lparr>index = [0],
        cols = [(''Reference'', [Str ''T1'']), (''amount_internal'', [Num 10]),
                (''amount_provider'', [Num 10]), (''result'', [Str ''Matched''])]\<rparr>),
      (''only_internal'',
       \<lparr>index = [2],
        cols = [(''Reference'', [Str ''T3'']), (''amount_internal'', [Num 5]),
                (''amount_provider'', [NaN]), (''result'', [Str ''Only Internal''])]\<rparr>),
      (''only_provider'',
       \<lparr>index = [3],
        cols = [(''Reference'', [Str ''T4'']), (''amount_internal'', [NaN]),
                (''amount_provider'', [Num 7]), (''result'', [Str ''Only Provider''])]\<rparr>),
      (''mismatched'',
       \<lparr>index = [1],
        cols = [(''Reference'', [Str ''T2'']), (''amount_internal'', [NaN]),
                (''amount_provider'', [NaN]), (''result'', [Str ''Mismatched''])]\<rparr>)]"

text \<open>
  Two datasets that share the reference \<open>T1\<close>, with their merged table, and two datasets
  in which the internal side carries the reference \<open>T1\<close> twice, with theirs; a dataset
  without the reference column.
\<close>

definition internal_ex :: frame where
  "internal_ex = \<lparr>index = [0, 1],
     cols = [(''ref'', [Str ''T1'', Str ''T3'']), (''amount'', [Num 10, Num 5])]\<rparr>"

definition provider_ex :: frame where
  "provider_ex = \<lparr>index = [0, 1],
     cols = [(''ref'', [Str ''T2'', Str ''T1'']), (''amount'', [Num 12, Num 10])]\<rparr>"

definition merged_io_ex :: frame where
  "merged_io_ex = \<lparr>index = [0, 1, 2],
     cols = [(''ref'', [Str ''T1'', Str ''T2'', Str ''T3'']),
             (''amount_internal'', [Num 10, NaN, Num 5]),
             (''amount_provider'', [Num 10, Num 12, NaN]),
             (''_merge'', [Str ''both'', Str ''right_only'', Str ''left_only''])]\<rparr>"

definition dup_internal_ex :: frame where
  "dup_internal_ex = \<lparr>index = [0, 1],
     cols = [(''ref'', [Str ''T1'', Str ''T1'']), (''amount'', [Num 10, Num 20])]\<rparr>"

definition one_provider_ex :: frame where
  "one_provider_ex = \<lparr>index = [0],
     cols = [(''ref'', [Str ''T1'']), (''amount'', [Num 10])]\<rparr>"

definition merged_dup_ex :: frame where
  "merged_dup_ex = \<lparr>index = [0, 1],
     cols = [(''ref'', [Str ''T1'', Str ''T1'']),
             (''amount_internal'', [Num 10, Num 20]),
             (''amount_provider'', [Num 10, Num 10]),
             (''_merge'', [Str ''both'', Str ''both''])]\<rparr>"

definition no_key_ex :: frame where
  "no_key_ex = \<lparr>index = [0], cols = [(''amount'', [Num 10])]\<rparr>"

text \<open>Two datasets with the columns of the examples above and no row.\<close>

definition empty_internal_ex :: frame where
  "empty_internal_ex = \<lparr>index = [], cols = [(''ref'', []), (''amount'', [])]\<rparr>"

definition empty_provider_ex :: frame where
  "empty_provider_ex = \<lparr>index = [], cols = [(''ref'', []), (''amount'', [])]\<rparr>"

text \<open>The provider dataset without rows, with one more column, named like the indicator.\<close>

definition empty_marked_provider_ex :: frame where
  "empty_marked_provider_ex =
     \<lparr>index = [], cols = [(''ref'', []), (''amount'', []), (''_merge'', [])]\<rparr>"

text \<open>
  The classified and the finalized tables of \<open>merged_io_ex\<close>, and a store holding the
  two datasets \<open>internal_ex\<close> and \<open>provider_ex\<close>.
\<close>

definition classified_io_ex :: "(string \<times> frame) list" where
  "classified_io_ex =
     [(''matched'',
       \<lparr>index = [0],
        cols = [(''ref'', [Str ''T1'']), (''amount_internal'', [Num 10]),
                (''amount_provider'', [Num 10]), (''_merge'', [Str ''both'']),
                (''result'', [Str ''Matched''])]\<rparr>),
      (''only_internal'',
       \<lparr>index = [2],
        cols = [(''ref'', [Str ''T3'']), (''amount_internal'', [Num 5]),
                (''amount_provider'', [NaN]), (''_merge'', [Str ''left_only'']),
                (''result'', [Str ''Only Internal''])]\<rparr>),
      (''only_provider'',
       \<lparr>index = [1],
        cols = [(''ref'', [Str ''T2'']), (''amount_internal'', [NaN]),
                (''amount_provider'', [Num 12]), (''_merge'', [Str ''right_only'']),
                (''result'', [Str ''Only Provider''])]\<rparr>),
      (''mismatched'',
       \<lparr>index = [],
        cols = [(''ref'', []), (''amount_internal'', []),
                (''amount_provider'', []), (''_merge'', []), (''result'', [])]\<rparr>)]"

definition finalized_io_ex :: "(string \<times> frame) list" where
  "finalized_io_ex =
     [(''matched'',
       \<lparr>index = [0],
        cols = [(''Reference'', [Str ''T1'']), (''amount_internal'', [Num 10]),
                (''amount_provider'', [Num 10]), (''result'', [Str ''Matched''])]\<rparr>),
      (''only_internal'',
       \<lparr>index = [2],
        cols = [(''Reference'', [Str ''T3'']), (''amount_internal'', [Num 5]),
                (''amount_provider'', [NaN]), (''result'', [Str ''Only Internal''])]\<rparr>),
      (''only_provider'',
       \<lparr>index = [1],
        cols = [(''Reference'', [Str ''T2'']), (''amount_internal'', [NaN]),
                (''amount_provider'', [Num 12]), (''result'', [Str ''Only Provider''])]\<rparr>),
      (''mismatched'',
       \<lparr>index = [],
        cols = [(''Reference'', []), (''amount_internal'', []),
                (''amount_provider'', []), (''result'', [])]\<rparr>)]"

definition store_ex :: store where
  "store_ex = [internal_ex, provider_ex]"

section \<open>Properties of the classifier\<close>

lemma cell_ne_not_eq: "cell_ne a b = (\<not> cell_eq a b)"
  by (auto simp: cell_ne_def cell_eq_def)

lemma set_filter_by:
  "length msk = length xs \<Longrightarrow> set (filter_by msk xs) = {xs ! i | i. i < length xs \<and> msk ! i}"
  by (auto simp: filter_by_def set_zip image_iff) force

lemma nth_mem_filter_by:
  assumes "distinct xs" "length msk = length xs" "i < length xs"
  shows "xs ! i \<in> set (filter_by msk xs) \<longleftrightarrow> msk ! i"
  using assms by (auto simp: set_filter_by nth_eq_iff_index_eq)

lemma getitem_wf:
  assumes "wf_frame df" "getitem df c = Inr d"
  shows "length d = nrows df" and "i < nrows df \<Longrightarrow> value_at df c i = Some (d ! i)"
proof -
  from assms(2) have m: "map_of (cols df) c = Some d"
    by (auto simp: getitem_def split: option.splits)
  then have "(c, d) \<in> set (cols df)" by (rule map_of_SomeD)
  with assms(1) show "length d = nrows df"
    by (auto simp: wf_frame_def list_all_iff)
  then show "i < nrows df \<Longrightarrow> value_at df c i = Some (d ! i)"
    using m by (simp add: value_at_def)
qed

lemma match_loop_spec:
  assumes "wf_frame merged"
  shows "length cond = nrows merged \<Longrightarrow> match_loop merged ps cond = Inr mc \<Longrightarrow>
     length mc = nrows merged \<and>
     (\<forall>i<nrows merged. mc ! i = (cond ! i \<and> (\<forall>p\<in>set ps. pair_equal merged p i)))"
proof (induction ps arbitrary: cond)
  case Nil
  then show ?case by simp
next
  case (Cons p ps)
  from Cons.prems(2) obtain l r where
    l: "getitem merged (left_col p) = Inr l" and r: "getitem merged (right_col p) = Inr r"
    and rest: "match_loop merged ps (series_and cond (series_eq l r)) = Inr mc"
    by (auto split: sum.splits)
  note ll = getitem_wf[OF assms l] and rr = getitem_wf[OF assms r]
  have len: "length (series_and cond (series_eq l r)) = nrows merged"
    using Cons.prems(1) ll(1) rr(1) by (simp add: series_and_def series_eq_def)
  have step: "\<forall>i<nrows merged. series_and cond (series_eq l r) ! i = (cond ! i \<and> pair_equal merged p i)"
    using Cons.prems(1) ll rr by (simp add: series_and_def series_eq_def pair_equal_def)
  from Cons.IH[OF len rest] step show ?case by auto
qed


lemma mismatch_pairs_spec:
  assumes "wf_frame merged"
  shows "mismatch_pairs merged ps = Inr mps \<Longrightarrow>
     list_all2 (\<lambda>p s. length s = nrows merged \<and>
                  (\<forall>i<nrows merged. s ! i = (\<not> pair_equal merged p i))) ps mps"
proof (induction ps arbitrary: mps)
  case Nil
  then show ?case by simp
next
  case (Cons p ps)
  from Cons.prems obtain l r rest where
    l: "getitem merged (left_col p) = Inr l" and r: "getitem merged (right_col p) = Inr r"
    and rest: "mismatch_pairs merged ps = Inr rest" and mps: "mps = series_ne l r # rest"
    by (auto split: sum.splits)
  note ll = getitem_wf[OF assms l] and rr = getitem_wf[OF assms r]
  have "length (series_ne l r) = nrows merged"
    using ll(1) rr(1) by (simp add: series_ne_def)
  moreover have "\<forall>i<nrows merged. series_ne l r ! i = (\<not> pair_equal merged p i)"
    using ll rr by (simp add: series_ne_def pair_equal_def cell_ne_not_eq)
  ultimately show ?case using Cons.IH[OF rest] mps by simp
qed

lemma foldl_series_or:
  "length t = n \<Longrightarrow> \<forall>s\<in>set rest. length s = n \<Longrightarrow>
     length (foldl series_or t rest) = n \<and>
     (\<forall>i<n. foldl series_or t rest ! i = (t ! i \<or> (\<exists>s\<in>set rest. s ! i)))"
proof (induction rest arbitrary: t)
  case Nil
  then show ?case by simp
next
  case (Cons s rest)
  have len: "length (series_or t s) = n"
    using Cons.prems by (simp add: series_or_def)
  have nth: "\<forall>i<n. series_or t s ! i = (t ! i \<or> s ! i)"
    using Cons.prems by (simp add: series_or_def)
  from Cons.IH[OF len] Cons.prems(2) nth show ?case by auto
qed

lemma origin_mask:
  assumes "wf_frame merged" "getitem merged (merge_indicator cfg) = Inr mk"
  shows "length (eq_scalar mk (Str s)) = nrows merged"
    and "i < nrows merged \<Longrightarrow> eq_scalar mk (Str s) ! i = origin_is merged cfg s i"
  using getitem_wf[OF assms]
  by (auto simp: eq_scalar_def origin_is_def cell_eq_def)

lemma match_cond_spec:
  assumes "wf_frame merged" "match_cond merged cfg = Inr mc"
  shows "length mc = nrows merged"
    and "i < nrows merged \<Longrightarrow>
         mc ! i = (origin_is merged cfg (both (merge_status cfg)) i \<and>
                   (\<forall>p\<in>set (comparison_pairs cfg). pair_equal merged p i))"
proof -
  from assms(2) obtain mk where mk: "getitem merged (merge_indicator cfg) = Inr mk"
    and loop: "match_loop merged (comparison_pairs cfg)
                 (eq_scalar mk (Str (both (merge_status cfg)))) = Inr mc"
    by (auto simp: match_cond_def split: sum.splits)
  note om = origin_mask[OF assms(1) mk]
  from match_loop_spec[OF assms(1) om(1) loop] om(2)
  show "length mc = nrows merged"
    and "i < nrows merged \<Longrightarrow>
         mc ! i = (origin_is merged cfg (both (merge_status cfg)) i \<and>
                   (\<forall>p\<in>set (comparison_pairs cfg). pair_equal merged p i))"
    by auto
qed

lemma list_all2_ex_iff:
  "list_all2 P ps ss \<Longrightarrow> (\<And>p s. P p s \<Longrightarrow> Q s = R p) \<Longrightarrow>
     (\<exists>s\<in>set ss. Q s) = (\<exists>p\<in>set ps. R p)"
  by (induction rule: list_all2_induct) auto

lemma mismatch_cond_spec:
  assumes "wf_frame merged" "mismatch_cond merged cfg = Inr mmc"
  shows "length mmc = nrows merged \<and>
         (\<forall>i<nrows merged.
            mmc ! i = (origin_is merged cfg (both (merge_status cfg)) i \<and>
                       (comparison_pairs cfg = [] \<or>
                        (\<exists>p\<in>set (comparison_pairs cfg). \<not> pair_equal merged p i))))"
proof -
  from assms(2) obtain mk mps where mk: "getitem merged (merge_indicator cfg) = Inr mk"
    and mps: "mismatch_pairs merged (comparison_pairs cfg) = Inr mps"
    and mmc: "mmc = (case mps of [] \<Rightarrow> eq_scalar mk (Str (both (merge_status cfg)))
                     | t # rest \<Rightarrow> series_and (eq_scalar mk (Str (both (merge_status cfg))))
                                     (foldl series_or t rest))"
    by (auto simp: mismatch_cond_def Let_def split: sum.splits list.splits)
  note om = origin_mask[OF assms(1) mk, where s = "both (merge_status cfg)"]
  note la = mismatch_pairs_spec[OF assms(1) mps]
  show ?thesis
  proof (cases mps)
    case Nil
    with la have "comparison_pairs cfg = []" by simp
    with Nil mmc om show ?thesis by auto
  next
    case (Cons t rest)
    with la obtain p ps where ps: "comparison_pairs cfg = p # ps"
      and t: "length t = nrows merged" "\<forall>i<nrows merged. t ! i = (\<not> pair_equal merged p i)"
      and rest: "list_all2 (\<lambda>p s. length s = nrows merged \<and>
                  (\<forall>i<nrows merged. s ! i = (\<not> pair_equal merged p i))) ps rest"
      by (auto simp: list_all2_Cons2)
    from rest have lens: "\<forall>s\<in>set rest. length s = nrows merged"
      by (auto simp: list_all2_conv_all_nth in_set_conv_nth)
    note f = foldl_series_or[OF t(1) lens]
    have ex: "\<forall>i<nrows merged. (\<exists>s\<in>set rest. s ! i) = (\<exists>q\<in>set ps. \<not> pair_equal merged q i)"
    proof (intro allI impI)
      fix i assume "i < nrows merged"
      then show "(\<exists>s\<in>set rest. s ! i) = (\<exists>q\<in>set ps. \<not> pair_equal merged q i)"
        by (intro list_all2_ex_iff[OF rest]) simp
    qed
    from f t(2) ex have tot: "\<forall>i<nrows merged. foldl series_or t rest ! i =
          (\<exists>q\<in>set (p # ps). \<not> pair_equal merged q i)"
      by simp
    from f om Cons mmc tot ps show ?thesis
      by (simp add: series_and_def)
  qed
qed


lemma index_setitem [simp]: "index (setitem df c v) = index df"
  by (simp add: setitem_def Let_def)

lemma index_select_rows [simp]: "index (select_rows msk df) = filter_by msk (index df)"
  by (simp add: select_rows_def)

lemma classify_shape:
  assumes "classify_merged_rows merged cfg = Inr res"
  obtains mc mk mmc where
    "match_cond merged cfg = Inr mc"
    "getitem merged (merge_indicator cfg) = Inr mk"
    "mismatch_cond merged cfg = Inr mmc"
    "category_rows res ''matched'' = set (filter_by mc (index merged))"
    "category_rows res ''only_internal'' =
       set (filter_by (eq_scalar mk (Str (left_only (merge_status cfg)))) (index merged))"
    "category_rows res ''only_provider'' =
       set (filter_by (eq_scalar mk (Str (right_only (merge_status cfg)))) (index merged))"
    "category_rows res ''mismatched'' = set (filter_by mmc (index merged))"
    "map fst res = category_names"
  using assms
  by (auto simp: classify_merged_rows_def status_rows_def category_rows_def category_names_def
      split: sum.splits)

lemma origin_rows_alt:
  "origin_rows merged cfg s =
     {index merged ! i | i. i < nrows merged \<and> origin_is merged cfg s i}"
  by (auto simp: origin_rows_def)

lemma mask_rows:
  assumes "length msk = nrows merged"
  shows "set (filter_by msk (index merged)) = {index merged ! i | i. i < nrows merged \<and> msk ! i}"
  using set_filter_by[of msk "index merged"] assms by (simp add: nrows_def)

lemma mask_rows_mem:
  assumes "unique_index merged" "length msk = nrows merged" "i < nrows merged"
  shows "index merged ! i \<in> set (filter_by msk (index merged)) \<longleftrightarrow> msk ! i"
  using assms nth_mem_filter_by[of "index merged" msk i]
  by (simp add: unique_index_def nrows_def)


text \<open>
  C10. A row present on both sides in which some comparison pair is missing in both of
  its columns is in the mismatched table and not in the matched table.
\<close>

theorem both_missing_pair_is_mismatched:
  assumes "wf_frame merged" "unique_index merged"
    and "classify_merged_rows merged cfg = Inr res" "i < nrows merged"
    and "origin_is merged cfg (both (merge_status cfg)) i"
    and "p \<in> set (comparison_pairs cfg)"
    and "value_at merged (left_col p) i = Some NaN"
    and "value_at merged (right_col p) i = Some NaN"
  shows "index merged ! i \<in> category_rows res ''mismatched'' \<and>
         index merged ! i \<notin> category_rows res ''matched''"
proof -
  from assms(3) obtain mc mmc where mc: "match_cond merged cfg = Inr mc"
    and mmc: "mismatch_cond merged cfg = Inr mmc"
    and rows: "category_rows res ''matched'' = set (filter_by mc (index merged))"
      "category_rows res ''mismatched'' = set (filter_by mmc (index merged))"
    by (rule classify_shape)
  note s1 = match_cond_spec[OF assms(1) mc]
  note s2 = mismatch_cond_spec[OF assms(1) mmc]
  have ne: "\<not> pair_equal merged p i"
    using assms(7,8) by (simp add: pair_equal_def cell_eq_def)
  have "\<not> mc ! i" using s1(2)[OF assms(4)] ne assms(6) by blast
  moreover have "mmc ! i" using s2 assms(4,5,6) ne by blast
  ultimately show ?thesis
    using mask_rows_mem[OF assms(2) s1(1) assms(4)] mask_rows_mem[OF assms(2) _ assms(4), of mmc] s2 rows
    by simp
qed


lemma origin_is_unique:
  "origin_is merged cfg s i \<Longrightarrow> origin_is merged cfg s' i \<Longrightarrow> s = s'"
  by (simp add: origin_is_def)

lemma category_membership:
  assumes "wf_frame merged" "unique_index merged"
    and "classify_merged_rows merged cfg = Inr res" "i < nrows merged"
  shows "index merged ! i \<in> category_rows res ''matched'' \<longleftrightarrow>
           origin_is merged cfg (both (merge_status cfg)) i \<and>
           (\<forall>p\<in>set (comparison_pairs cfg). pair_equal merged p i)"
    and "index merged ! i \<in> category_rows res ''mismatched'' \<longleftrightarrow>
           origin_is merged cfg (both (merge_status cfg)) i \<and>
           (comparison_pairs cfg = [] \<or>
            (\<exists>p\<in>set (comparison_pairs cfg). \<not> pair_equal merged p i))"
    and "index merged ! i \<in> category_rows res ''only_internal'' \<longleftrightarrow>
           origin_is merged cfg (left_only (merge_status cfg)) i"
    and "index merged ! i \<in> category_rows res ''only_provider'' \<longleftrightarrow>
           origin_is merged cfg (right_only (merge_status cfg)) i"
proof -
  from assms(3) obtain mc mk mmc where mc: "match_cond merged cfg = Inr mc"
    and mk: "getitem merged (merge_indicator cfg) = Inr mk"
    and mmc: "mismatch_cond merged cfg = Inr mmc"
    and rows: "category_rows res ''matched'' = set (filter_by mc (index merged))"
      "category_rows res ''only_internal'' =
         set (filter_by (eq_scalar mk (Str (left_only (merge_status cfg)))) (index merged))"
      "category_rows res ''only_provider'' =
         set (filter_by (eq_scalar mk (Str (right_only (merge_status cfg)))) (index merged))"
      "category_rows res ''mismatched'' = set (filter_by mmc (index merged))"
    by (rule classify_shape)
  note s1 = match_cond_spec[OF assms(1) mc]
  note s2 = mismatch_cond_spec[OF assms(1) mmc]
  note om = origin_mask[OF assms(1) mk]
  note mem = mask_rows_mem[OF assms(2) _ assms(4)]
  show "index merged ! i \<in> category_rows res ''matched'' \<longleftrightarrow>
           origin_is merged cfg (both (merge_status cfg)) i \<and>
           (\<forall>p\<in>set (comparison_pairs cfg). pair_equal merged p i)"
    using mem[OF s1(1)] s1(2)[OF assms(4)] rows(1) by simp
  show "index merged ! i \<in> category_rows res ''mismatched'' \<longleftrightarrow>
           origin_is merged cfg (both (merge_status cfg)) i \<and>
           (comparison_pairs cfg = [] \<or>
            (\<exists>p\<in>set (comparison_pairs cfg). \<not> pair_equal merged p i))"
    using mem[of mmc] s2 assms(4) rows(4) by simp
  show "index merged ! i \<in> category_rows res ''only_internal'' \<longleftrightarrow>
           origin_is merged cfg (left_only (merge_status cfg)) i"
    using mem[OF om(1)] om(2)[OF assms(4)] rows(2) by simp
  show "index merged ! i \<in> category_rows res ''only_provider'' \<longleftrightarrow>
           origin_is merged cfg (right_only (merge_status cfg)) i"
    using mem[OF om(1)] om(2)[OF assms(4)] rows(3) by simp
qed

lemma filter_by_subset: "x \<in> set (filter_by msk xs) \<Longrightarrow> x \<in> set xs"
  by (auto simp: filter_by_def dest: set_zip_rightD)

lemma category_rows_subset:
  assumes "classify_merged_rows merged cfg = Inr res"
  shows "category_rows res k \<subseteq> set (index merged)"
proof -
  from assms obtain mc mk mmc where
    rows: "category_rows res ''matched'' = set (filter_by mc (index merged))"
      "category_rows res ''only_internal'' =
         set (filter_by (eq_scalar mk (Str (left_only (merge_status cfg)))) (index merged))"
      "category_rows res ''only_provider'' =
         set (filter_by (eq_scalar mk (Str (right_only (merge_status cfg)))) (index merged))"
      "category_rows res ''mismatched'' = set (filter_by mmc (index merged))"
    and names: "map fst res = category_names"
    by (rule classify_shape)
  show ?thesis
  proof (cases "k \<in> set category_names")
    case True
    then show ?thesis using rows by (auto simp: category_names_def dest: filter_by_subset)
  next
    case False
    with names have "map_of res k = None"
      by (metis map_of_eq_None_iff set_map)
    then show ?thesis by (simp add: category_rows_def)
  qed
qed

lemma classifier_categories:
  assumes "wf_frame merged" "unique_index merged"
    and "comparison_pairs cfg \<noteq> []"
    and "classify_merged_rows merged cfg = Inr res"
  shows "category_rows res ''matched'' \<inter> category_rows res ''mismatched'' = {} \<and>
         category_rows res ''matched'' \<union> category_rows res ''mismatched'' =
           origin_rows merged cfg (both (merge_status cfg)) \<and>
         category_rows res ''only_internal'' =
           origin_rows merged cfg (left_only (merge_status cfg)) \<and>
         category_rows res ''only_provider'' =
           origin_rows merged cfg (right_only (merge_status cfg)) \<and>
         (distinct [both (merge_status cfg), left_only (merge_status cfg),
                    right_only (merge_status cfg)] \<and>
          (\<forall>i<nrows merged.
             origin_is merged cfg (both (merge_status cfg)) i \<or>
             origin_is merged cfg (left_only (merge_status cfg)) i \<or>
             origin_is merged cfg (right_only (merge_status cfg)) i) \<longrightarrow>
          (\<forall>l\<in>set (index merged).
             \<exists>!k. k \<in> set category_names \<and> l \<in> category_rows res k))"
proof -
  note mem = category_membership[OF assms(1,2,4)]
  note sub = category_rows_subset[OF assms(4)]
  have lab: "\<And>l. l \<in> set (index merged) \<Longrightarrow> \<exists>i<nrows merged. l = index merged ! i"
    by (metis in_set_conv_nth nrows_def)
  have c1: "category_rows res ''matched'' \<inter> category_rows res ''mismatched'' = {}"
  proof (rule ccontr)
    assume "category_rows res ''matched'' \<inter> category_rows res ''mismatched'' \<noteq> {}"
    then obtain l where l: "l \<in> category_rows res ''matched''" "l \<in> category_rows res ''mismatched''"
      by auto
    with sub lab obtain i where "i < nrows merged" "l = index merged ! i" by blast
    with l mem(1,2)[of i] assms(3) show False by auto
  qed
  have c2: "category_rows res ''matched'' \<union> category_rows res ''mismatched'' =
           origin_rows merged cfg (both (merge_status cfg))"
  proof (intro set_eqI iffI)
    fix l assume "l \<in> category_rows res ''matched'' \<union> category_rows res ''mismatched''"
    moreover from this sub lab obtain i where "i < nrows merged" "l = index merged ! i" by blast
    ultimately show "l \<in> origin_rows merged cfg (both (merge_status cfg))"
      using mem(1,2)[of i] by (auto simp: origin_rows_alt)
  next
    fix l assume "l \<in> origin_rows merged cfg (both (merge_status cfg))"
    then obtain i where "i < nrows merged" "l = index merged ! i"
      "origin_is merged cfg (both (merge_status cfg)) i"
      by (auto simp: origin_rows_alt)
    then show "l \<in> category_rows res ''matched'' \<union> category_rows res ''mismatched''"
      using mem(1,2)[of i] by auto
  qed
  have c3: "category_rows res ''only_internal'' =
           origin_rows merged cfg (left_only (merge_status cfg))"
  proof (intro set_eqI iffI)
    fix l assume "l \<in> category_rows res ''only_internal''"
    moreover from this sub lab obtain i where "i < nrows merged" "l = index merged ! i" by blast
    ultimately show "l \<in> origin_rows merged cfg (left_only (merge_status cfg))"
      using mem(3)[of i] by (auto simp: origin_rows_alt)
  next
    fix l assume "l \<in> origin_rows merged cfg (left_only (merge_status cfg))"
    then show "l \<in> category_rows res ''only_internal''"
      using mem(3) by (auto simp: origin_rows_alt)
  qed
  have c4: "category_rows res ''only_provider'' =
           origin_rows merged cfg (right_only (merge_status cfg))"
  proof (intro set_eqI iffI)
    fix l assume "l \<in> category_rows res ''only_provider''"
    moreover from this sub lab obtain i where "i < nrows merged" "l = index merged ! i" by blast
    ultimately show "l \<in> origin_rows merged cfg (right_only (merge_status cfg))"
      using mem(4)[of i] by (auto simp: origin_rows_alt)
  next
    fix l assume "l \<in> origin_rows merged cfg (right_only (merge_status cfg))"
    then show "l \<in> category_rows res ''only_provider''"
      using mem(4) by (auto simp: origin_rows_alt)
  qed
  have c5: "\<forall>l\<in>set (index merged). \<exists>!k. k \<in> set category_names \<and> l \<in> category_rows res k"
    if d: "distinct [both (merge_status cfg), left_only (merge_status cfg),
                    right_only (merge_status cfg)]"
      and cover: "\<forall>i<nrows merged.
             origin_is merged cfg (both (merge_status cfg)) i \<or>
             origin_is merged cfg (left_only (merge_status cfg)) i \<or>
             origin_is merged cfg (right_only (merge_status cfg)) i"
  proof
    fix l assume "l \<in> set (index merged)"
    with lab obtain i where i: "i < nrows merged" "l = index merged ! i" by blast
    note m = mem[OF i(1), folded i(2)]
    note u = origin_is_unique[of merged cfg _ i]
    from cover i(1) consider
      (b) "origin_is merged cfg (both (merge_status cfg)) i"
      | (lo) "origin_is merged cfg (left_only (merge_status cfg)) i"
      | (ro) "origin_is merged cfg (right_only (merge_status cfg)) i"
      by blast
    then show "\<exists>!k. k \<in> set category_names \<and> l \<in> category_rows res k"
    proof cases
      case b
      with u d have n: "\<not> origin_is merged cfg (left_only (merge_status cfg)) i"
        "\<not> origin_is merged cfg (right_only (merge_status cfg)) i"
        by auto
      show ?thesis
      proof (cases "\<forall>p\<in>set (comparison_pairs cfg). pair_equal merged p i")
        case True
        with b n m assms(3) show ?thesis
          by (intro ex1I[of _ "''matched''"]) (auto simp: category_names_def)
      next
        case False
        with b n m assms(3) show ?thesis
          by (intro ex1I[of _ "''mismatched''"]) (auto simp: category_names_def)
      qed
    next
      case lo
      with u d have n: "\<not> origin_is merged cfg (both (merge_status cfg)) i"
        "\<not> origin_is merged cfg (right_only (merge_status cfg)) i"
        by auto
      with lo m show ?thesis
        by (intro ex1I[of _ "''only_internal''"]) (auto simp: category_names_def)
    next
      case ro
      with u d have n: "\<not> origin_is merged cfg (both (merge_status cfg)) i"
        "\<not> origin_is merged cfg (left_only (merge_status cfg)) i"
        by auto
      with ro m show ?thesis
        by (intro ex1I[of _ "''only_provider''"]) (auto simp: category_names_def)
    qed
  qed
  from c1 c2 c3 c4 c5 show ?thesis by blast
qed


lemma wf_merged_ex: "wf_frame merged_ex"
  by (simp add: wf_frame_def merged_ex_def columns_def nrows_def)

lemma unique_index_merged_ex: "unique_index merged_ex"
  by (simp add: unique_index_def merged_ex_def)

lemma classify_merged_ex: "classify_merged_rows merged_ex cfg_ex = Inr classified_ex"
  by (simp add: classify_merged_rows_def match_cond_def mismatch_cond_def status_rows_def
      getitem_def merged_ex_def cfg_ex_def classified_ex_def left_col_def right_col_def
      eq_scalar_def series_eq_def series_ne_def series_and_def series_or_def cell_eq_def
      cell_ne_def select_rows_def filter_by_def setitem_def columns_def nrows_def)


theorem both_missing_pair_is_mismatched_witness:
  "wf_frame merged_ex \<and> unique_index merged_ex \<and>
   classify_merged_rows merged_ex cfg_ex = Inr classified_ex \<and> 1 < nrows merged_ex \<and>
   origin_is merged_ex cfg_ex (both (merge_status cfg_ex)) 1 \<and>
   \<lparr>base = ''amount'', suffixes = (''_internal'', ''_provider'')\<rparr> \<in> set (comparison_pairs cfg_ex) \<and>
   value_at merged_ex ''amount_internal'' 1 = Some NaN \<and>
   value_at merged_ex ''amount_provider'' 1 = Some NaN \<and>
   index merged_ex ! 1 \<in> category_rows classified_ex ''mismatched'' \<and>
   index merged_ex ! 1 \<notin> category_rows classified_ex ''matched''"
proof -
  let ?p = "\<lparr>base = ''amount'', suffixes = (''_internal'', ''_provider'')\<rparr>"
  have n: "1 < nrows merged_ex" by (simp add: nrows_def merged_ex_def)
  have o: "origin_is merged_ex cfg_ex (both (merge_status cfg_ex)) 1"
    by (simp add: origin_is_def value_at_def merged_ex_def cfg_ex_def)
  have p: "?p \<in> set (comparison_pairs cfg_ex)" by (simp add: cfg_ex_def)
  have l: "value_at merged_ex (left_col ?p) 1 = Some NaN"
    by (simp add: value_at_def merged_ex_def left_col_def)
  have r: "value_at merged_ex (right_col ?p) 1 = Some NaN"
    by (simp add: value_at_def merged_ex_def right_col_def)
  from both_missing_pair_is_mismatched[OF wf_merged_ex unique_index_merged_ex
      classify_merged_ex n o p l r]
  show ?thesis
    using wf_merged_ex unique_index_merged_ex classify_merged_ex n o p l r
    by (simp add: left_col_def right_col_def)
qed

text \<open>
  C1, as stated, fails when a row carries an origin marker that is none of the three
  configured statuses: with \<open>BOTH\<close> configured for the rows present on both sides, the
  rows the merge marks \<open>both\<close> are in none of the four tables.
\<close>

theorem classify_unknown_marker_no_category:
  "wf_frame merged_ex \<and> unique_index merged_ex \<and> comparison_pairs cfg_upper_ex \<noteq> [] \<and>
   classify_merged_rows merged_ex cfg_upper_ex = Inr classified_upper_ex \<and>
   0 \<in> set (index merged_ex) \<and>
   0 \<notin> category_rows classified_upper_ex ''matched'' \<and>
   0 \<notin> category_rows classified_upper_ex ''only_internal'' \<and>
   0 \<notin> category_rows classified_upper_ex ''only_provider'' \<and>
   0 \<notin> category_rows classified_upper_ex ''mismatched''"
proof -
  have "classify_merged_rows merged_ex cfg_upper_ex = Inr classified_upper_ex"
    by (simp add: classify_merged_rows_def match_cond_def mismatch_cond_def status_rows_def
      getitem_def merged_ex_def cfg_upper_ex_def classified_upper_ex_def left_col_def
      right_col_def eq_scalar_def series_eq_def series_ne_def series_and_def series_or_def
      cell_eq_def cell_ne_def select_rows_def filter_by_def setitem_def columns_def nrows_def)
  moreover have "comparison_pairs cfg_upper_ex \<noteq> []" by (simp add: cfg_upper_ex_def)
  moreover have "0 \<in> set (index merged_ex)" by (simp add: merged_ex_def)
  moreover have "0 \<notin> category_rows classified_upper_ex ''matched''"
    "0 \<notin> category_rows classified_upper_ex ''only_internal''"
    "0 \<notin> category_rows classified_upper_ex ''only_provider''"
    "0 \<notin> category_rows classified_upper_ex ''mismatched''"
    by (simp_all add: category_rows_def classified_upper_ex_def)
  ultimately show ?thesis using wf_merged_ex unique_index_merged_ex by blast
qed

text \<open>
  C1, as amended. Take a merged table and a configuration with at least one comparison
  pair, whose three configured origin statuses are pairwise different and such that the
  origin marker of every row is one of them. Then the classifier places each merged row
  in exactly one of the four categories: the matched and mismatched tables share no row
  and together hold exactly the rows whose origin marker is the status configured for
  both sides; the rows marked left-only are the only-internal table and the rows marked
  right-only are the only-provider table.
\<close>

theorem classifier_partition:
  assumes "wf_frame merged" "unique_index merged"
    and "comparison_pairs cfg \<noteq> []"
    and "classify_merged_rows merged cfg = Inr res"
    and "distinct [both (merge_status cfg), left_only (merge_status cfg),
                   right_only (merge_status cfg)]"
    and "\<forall>i<nrows merged.
           origin_is merged cfg (both (merge_status cfg)) i \<or>
           origin_is merged cfg (left_only (merge_status cfg)) i \<or>
           origin_is merged cfg (right_only (merge_status cfg)) i"
  shows "(\<forall>l\<in>set (index merged).
            \<exists>!k. k \<in> set category_names \<and> l \<in> category_rows res k) \<and>
         category_rows res ''matched'' \<inter> category_rows res ''mismatched'' = {} \<and>
         category_rows res ''matched'' \<union> category_rows res ''mismatched'' =
           origin_rows merged cfg (both (merge_status cfg)) \<and>
         category_rows res ''only_internal'' =
           origin_rows merged cfg (left_only (merge_status cfg)) \<and>
         category_rows res ''only_provider'' =
           origin_rows merged cfg (right_only (merge_status cfg))"
proof -
  note c = classifier_categories[OF assms(1-4)]
  from c[THEN conjunct2, THEN conjunct2, THEN conjunct2, THEN conjunct2] assms(5,6)
  have "\<forall>l\<in>set (index merged). \<exists>!k. k \<in> set category_names \<and> l \<in> category_rows res k"
    by (rule mp[OF _ conjI])
  with c[THEN conjunct1] c[THEN conjunct2, THEN conjunct1]
    c[THEN conjunct2, THEN conjunct2, THEN conjunct1]
    c[THEN conjunct2, THEN conjunct2, THEN conjunct2, THEN conjunct1]
  show ?thesis by (intro conjI)
qed

theorem classifier_partition_witness:
  "wf_frame merged_ex \<and> unique_index merged_ex \<and> comparison_pairs cfg_ex \<noteq> [] \<and>
   classify_merged_rows merged_ex cfg_ex = Inr classified_ex \<and>
   distinct [both (merge_status cfg_ex), left_only (merge_status cfg_ex),
             right_only (merge_status cfg_ex)] \<and>
   list_all (\<lambda>i. origin_is merged_ex cfg_ex (both (merge_status cfg_ex)) i \<or>
                   origin_is merged_ex cfg_ex (left_only (merge_status cfg_ex)) i \<or>
                   origin_is merged_ex cfg_ex (right_only (merge_status cfg_ex)) i)
            [0..<nrows merged_ex] \<and>
   category_rows classified_ex ''matched'' \<inter> category_rows classified_ex ''mismatched'' = {} \<and>
   category_rows classified_ex ''matched'' \<union> category_rows classified_ex ''mismatched'' =
     origin_rows merged_ex cfg_ex (both (merge_status cfg_ex)) \<and>
   category_rows classified_ex ''only_internal'' =
     origin_rows merged_ex cfg_ex (left_only (merge_status cfg_ex)) \<and>
   category_rows classified_ex ''only_provider'' =
     origin_rows merged_ex cfg_ex (right_only (merge_status cfg_ex)) \<and>
   list_all (\<lambda>l. \<exists>!k. k \<in> set category_names \<and> l \<in> category_rows classified_ex k)
            (index merged_ex)"
proof -
  have p: "comparison_pairs cfg_ex \<noteq> []" by (simp add: cfg_ex_def)
  have d: "distinct [both (merge_status cfg_ex), left_only (merge_status cfg_ex),
             right_only (merge_status cfg_ex)]"
    by (simp add: cfg_ex_def)
  have c: "\<forall>i<nrows merged_ex.
      origin_is merged_ex cfg_ex (both (merge_status cfg_ex)) i \<or>
      origin_is merged_ex cfg_ex (left_only (merge_status cfg_ex)) i \<or>
      origin_is merged_ex cfg_ex (right_only (merge_status cfg_ex)) i"
    by (simp add: nrows_def merged_ex_def origin_is_def value_at_def cfg_ex_def
        nth_Cons' less_Suc_eq numeral_eq_Suc)
  then have c': "list_all (\<lambda>i. origin_is merged_ex cfg_ex (both (merge_status cfg_ex)) i \<or>
                   origin_is merged_ex cfg_ex (left_only (merge_status cfg_ex)) i \<or>
                   origin_is merged_ex cfg_ex (right_only (merge_status cfg_ex)) i)
            [0..<nrows merged_ex]"
    by (simp add: list_all_iff)
  from classifier_partition[OF wf_merged_ex unique_index_merged_ex p classify_merged_ex d c]
  show ?thesis
    unfolding list_all_iff[of _ "index merged_ex"]
    using wf_merged_ex unique_index_merged_ex p classify_merged_ex d c' by blast
qed

text \<open>
  C2. With an empty list of comparison pairs the mismatch mask is left as the mask of
  the rows present on both sides, so the classifier returns every such row in the
  mismatched table as well as in the matched table. On \<open>merged_ex\<close> the rows 0 and 1
  are in both.
\<close>

theorem classify_no_pairs_mismatched_not_empty:
  "classify_merged_rows merged_ex (cfg_ex\<lparr>comparison_pairs := []\<rparr>) = Inr classified_no_pairs_ex \<and>
   category_rows classified_no_pairs_ex ''mismatched'' = {0, 1} \<and>
   category_rows classified_no_pairs_ex ''matched'' = {0, 1}"
proof -
  have "classify_merged_rows merged_ex (cfg_ex\<lparr>comparison_pairs := []\<rparr>) = Inr classified_no_pairs_ex"
    by (simp add: classify_merged_rows_def match_cond_def mismatch_cond_def status_rows_def
      getitem_def merged_ex_def cfg_ex_def classified_no_pairs_ex_def
      eq_scalar_def series_and_def cell_eq_def
      select_rows_def filter_by_def setitem_def columns_def nrows_def)
  moreover have "category_rows classified_no_pairs_ex ''mismatched'' = {0, 1}"
    by (simp add: category_rows_def classified_no_pairs_ex_def)
  moreover have "category_rows classified_no_pairs_ex ''matched'' = {0, 1}"
    by (simp add: category_rows_def classified_no_pairs_ex_def)
  ultimately show ?thesis by simp
qed

section \<open>Properties of the finalizer\<close>

lemma filter_label_single:
  "distinct (map fst cs) \<Longrightarrow> y \<in> set cs \<Longrightarrow> filter (\<lambda>x. fst x = fst y) cs = [y]"
proof (induction cs)
  case Nil
  then show ?case by simp
next
  case (Cons c cs)
  show ?case
  proof (cases "y = c")
    case True
    have "filter (\<lambda>x. fst x = fst c) cs = []"
      using Cons.prems(1) by (auto simp: filter_empty_conv image_iff)
    with True show ?thesis by simp
  next
    case False
    with Cons.prems have y: "y \<in> set cs" by simp
    with Cons.prems(1) have "fst c \<noteq> fst y" by auto
    with Cons.IH y Cons.prems(1) show ?thesis by simp
  qed
qed

lemma select_cols_own:
  assumes "distinct (map fst cs)"
  shows "set ys \<subseteq> set cs \<Longrightarrow> select_cols cs (map fst ys) = Inr ys"
proof (induction ys)
  case Nil
  then show ?case by simp
next
  case (Cons y ys)
  then have "filter (\<lambda>x. fst x = fst y) cs = [y]"
    using filter_label_single[OF assms] by simp
  with Cons show ?case by simp
qed

lemma finalize_df_exact:
  assumes "wf_frame df" "''result'' \<in> set (columns df)" "merge_indicator cfg \<noteq> ''result''"
  shows "finalize_df cfg df =
     Inr \<lparr>index = index df,
          cols = map (\<lambda>(n, d). (rename_label (rename_columns cfg) n, d))
                   (filter (\<lambda>c. fst c \<noteq> merge_indicator cfg) (cols df))\<rparr>"
proof -
  let ?keep = "filter (\<lambda>c. fst c \<noteq> merge_indicator cfg) (cols df)"
  have cols0: "filter (\<lambda>c. c \<noteq> merge_indicator cfg) (columns df) = map fst ?keep"
    by (simp add: columns_def filter_map comp_def)
  have res: "''result'' \<in> set (map fst ?keep)"
    using assms(2,3) by (auto simp: columns_def)
  have "select_cols (cols df) (map fst ?keep) = Inr ?keep"
    using assms(1) by (intro select_cols_own) (auto simp: wf_frame_def columns_def)
  with cols0 res show ?thesis
    by (simp add: finalize_df_def Let_def del: set_map)
qed

text \<open>
  C6. Finalizing changes columns only. For classified tables (each with its result
  column) and an origin-marker column that is not the result column, every category
  keeps its key, its index (the same rows in the same order) and the cells of every
  column it keeps; the origin-marker column is the only one dropped, the labels are
  renamed by the configured mapping, and the result column stays.
\<close>

theorem finalize_keeps_rows:
  assumes "list_all (\<lambda>(key, df). wf_frame df \<and> ''result'' \<in> set (columns df)) results"
    and "merge_indicator cfg \<noteq> ''result''"
  shows "finalize_results results cfg =
     Inr (map (\<lambda>(key, df).
            (key, \<lparr>index = index df,
                   cols = map (\<lambda>(n, d). (rename_label (rename_columns cfg) n, d))
                            (filter (\<lambda>c. fst c \<noteq> merge_indicator cfg) (cols df))\<rparr>))
          results)"
  unfolding finalize_results_def using assms(1)
proof (induction results)
  case Nil
  then show ?case by simp
next
  case (Cons kv results)
  obtain key df where kv: "kv = (key, df)" by (cases kv)
  with Cons.prems have "wf_frame df" "''result'' \<in> set (columns df)" by simp_all
  from finalize_df_exact[OF this assms(2)] Cons kv show ?case by simp
qed



lemma classified_ex_finalizable:
  "list_all (\<lambda>(key, df). wf_frame df \<and> ''result'' \<in> set (columns df)) classified_ex"
  by (simp add: classified_ex_def wf_frame_def columns_def nrows_def)

theorem finalize_keeps_rows_witness:
  "list_all (\<lambda>(key, df). wf_frame df \<and> ''result'' \<in> set (columns df)) classified_ex \<and>
   merge_indicator cfg_ex \<noteq> ''result'' \<and>
   finalize_results classified_ex cfg_ex = Inr finalized_ex"
proof -
  have ne: "merge_indicator cfg_ex \<noteq> ''result''" by (simp add: cfg_ex_def)
  have "map (\<lambda>(key, df).
            (key, \<lparr>index = index df,
                   cols = map (\<lambda>(n, d). (rename_label (rename_columns cfg_ex) n, d))
                            (filter (\<lambda>c. fst c \<noteq> merge_indicator cfg_ex) (cols df))\<rparr>))
          classified_ex = finalized_ex"
    by (simp add: classified_ex_def finalized_ex_def cfg_ex_def rename_label_def)
  with finalize_keeps_rows[OF classified_ex_finalizable ne]
  show ?thesis using classified_ex_finalizable ne by simp
qed


section \<open>Properties of the merger\<close>

lemma set_insert_key [simp]: "set (insert_key k xs) = insert k (set xs)"
  by (induction xs) auto

lemma set_sort_keys [simp]: "set (sort_keys xs) = set xs"
  by (induction xs) auto

lemma distinct_insert_key [simp]: "distinct (insert_key k xs) \<longleftrightarrow> k \<notin> set xs \<and> distinct xs"
  by (induction xs) auto

lemma distinct_sort_keys [simp]: "distinct (sort_keys xs) = distinct xs"
  by (induction xs) auto

lemma length_positions: "length (positions k xs) = count_list xs k"
proof -
  have "filter (\<lambda>x. x = k) (map ((!) xs) [0..<length xs]) =
        map ((!) xs) (filter (\<lambda>i. xs ! i = k) [0..<length xs])"
    by (simp add: filter_map comp_def)
  then have "length (filter (\<lambda>x. x = k) xs) = length (positions k xs)"
    by (simp add: map_nth positions_def)
  moreover have "filter ((=) k) xs = filter (\<lambda>x. x = k) xs"
    by (rule filter_cong) auto
  ultimately show ?thesis by (simp add: count_list_eq_length_filter)
qed

lemma positions_mem: "i \<in> set (positions k xs) \<Longrightarrow> k \<in> set xs"
  by (auto simp: positions_def)

lemma positions_nth: "i \<in> set (positions k xs) \<Longrightarrow> i < length xs \<and> xs ! i = k"
  by (simp add: positions_def)

lemma positions_empty: "positions k xs = [] \<longleftrightarrow> k \<notin> set xs"
  by (auto simp: positions_def filter_empty_conv in_set_conv_nth)

lemma key_group_key: "e \<in> set (key_group k lk rk) \<Longrightarrow> key_value lk rk e = k"
  by (auto simp: key_group_def Let_def dest: positions_nth split: if_splits)

lemma key_group_indicator:
  "e \<in> set (key_group k lk rk) \<Longrightarrow>
     indicator_value e =
       Str (if k \<in> set lk \<and> k \<in> set rk then ''both''
            else if k \<in> set lk then ''left_only'' else ''right_only'')"
  by (auto simp: key_group_def Let_def positions_empty split: if_splits dest: positions_mem)

lemma length_key_group:
  "length (key_group k lk rk) =
     (if count_list rk k = 0 then count_list lk k
      else if count_list lk k = 0 then count_list rk k
      else count_list lk k * count_list rk k)"
proof -
  have "length (concat (map (\<lambda>i. map (\<lambda>j. (Some i, Some j)) (positions k rk)) (positions k lk)))
        = length (positions k lk) * length (positions k rk)"
    by (simp add: length_concat comp_def sum_list_triv)
  then show ?thesis
    by (simp add: key_group_def Let_def length_positions[symmetric])
qed

lemma key_column_groups:
  "map (key_value lk rk) (concat (map (\<lambda>k. key_group k lk rk) ks)) =
     concat (map (\<lambda>k. replicate (length (key_group k lk rk)) k) ks)"
proof (induction ks)
  case Nil
  then show ?case by simp
next
  case (Cons k ks)
  have "map (key_value lk rk) (key_group k lk rk) = replicate (length (key_group k lk rk)) k"
    by (simp add: map_replicate_const[symmetric] key_group_key cong: map_cong)
  with Cons show ?case by simp
qed

lemma count_list_replicate: "count_list (replicate n x) y = (if x = y then n else 0)"
  by (induction n) auto

lemma count_list_groups:
  "distinct ks \<Longrightarrow>
     count_list (concat (map (\<lambda>k. replicate (f k) k) ks)) k = (if k \<in> set ks then f k else 0)"
  by (induction ks) (auto simp: count_list_replicate)

lemma join_key_column_count:
  "count_list (map (key_value lk rk) (join_indexers lk rk)) k =
     (if count_list rk k = 0 then count_list lk k
      else if count_list lk k = 0 then count_list rk k
      else count_list lk k * count_list rk k)"
proof -
  have "count_list (map (key_value lk rk) (join_indexers lk rk)) k =
        (if k \<in> set lk \<union> set rk then length (key_group k lk rk) else 0)"
    by (simp add: join_indexers_def key_column_groups count_list_groups)
  then show ?thesis
    by (auto simp: length_key_group count_list_0_iff)
qed

lemma count_list_pos_iff: "0 < count_list xs x \<longleftrightarrow> x \<in> set xs"
  using count_list_0_iff[of xs x] by auto

lemma join_key_column_set:
  "set (map (key_value lk rk) (join_indexers lk rk)) = set lk \<union> set rk"
proof (rule set_eqI)
  fix k
  have "k \<in> set (map (key_value lk rk) (join_indexers lk rk)) \<longleftrightarrow>
        count_list (map (key_value lk rk) (join_indexers lk rk)) k \<noteq> 0"
    by (simp only: count_list_0_iff) simp
  also have "\<dots> \<longleftrightarrow> k \<in> set lk \<union> set rk"
    unfolding join_key_column_count by (auto simp: count_list_0_iff count_list_pos_iff)
  finally show "k \<in> set (map (key_value lk rk) (join_indexers lk rk)) \<longleftrightarrow> k \<in> set lk \<union> set rk" .
qed

lemma join_indicator:
  assumes "e \<in> set (join_indexers lk rk)"
  shows "indicator_value e =
       Str (if key_value lk rk e \<in> set lk \<and> key_value lk rk e \<in> set rk then ''both''
            else if key_value lk rk e \<in> set lk then ''left_only'' else ''right_only'')"
proof -
  from assms obtain k where e: "e \<in> set (key_group k lk rk)"
    by (auto simp: join_indexers_def)
  from key_group_indicator[OF e] key_group_key[OF e] show ?thesis by simp
qed


lemma getitem_mem: "getitem df c = Inr d \<Longrightarrow> (c, d) \<in> set (cols df)"
  by (auto simp: getitem_def split: option.splits dest: map_of_SomeD)

lemma getitem_Inl: "getitem df c = Inl e \<Longrightarrow> e = KeyError c \<and> c \<notin> set (columns df)"
  by (auto simp: getitem_def columns_def map_of_eq_None_iff split: option.splits)

lemma getitem_missing: "c \<notin> set (columns df) \<Longrightarrow> getitem df c = Inl (KeyError c)"
  by (auto simp: getitem_def columns_def map_of_eq_None_iff[symmetric] simp del: map_of_eq_None_iff
      split: option.splits)

lemma getitem_present: "c \<in> set (columns df) \<Longrightarrow> \<exists>d. getitem df c = Inr d"
  by (cases "getitem df c") (auto dest: getitem_Inl)

lemma getitem_distinct:
  "distinct (columns df) \<Longrightarrow> (c, d) \<in> set (cols df) \<Longrightarrow> getitem df c = Inr d"
  by (simp add: getitem_def columns_def)

lemma value_at_distinct:
  "distinct (columns df) \<Longrightarrow> (c, d) \<in> set (cols df) \<Longrightarrow> i < length d \<Longrightarrow>
     value_at df c i = Some (d ! i)"
  by (simp add: value_at_def columns_def)


lemma join_sides:
  assumes "e \<in> set (join_indexers lk rk)"
  shows "(case fst e of Some a \<Rightarrow> a < length lk \<and> lk ! a = key_value lk rk e
          | None \<Rightarrow> key_value lk rk e \<notin> set lk) \<and>
         (case snd e of Some b \<Rightarrow> b < length rk \<and> rk ! b = key_value lk rk e
          | None \<Rightarrow> key_value lk rk e \<notin> set rk)"
proof -
  from assms obtain k where e: "e \<in> set (key_group k lk rk)"
    by (auto simp: join_indexers_def)
  note k = key_group_key[OF e]
  from e show ?thesis unfolding k
    by (auto simp: key_group_def Let_def positions_empty split: if_splits dest: positions_nth)
qed

lemma join_left_fill: "None \<in> set (map fst (join_indexers lk rk)) \<longleftrightarrow> \<not> set rk \<subseteq> set lk"
proof
  assume "None \<in> set (map fst (join_indexers lk rk))"
  then obtain e where e: "e \<in> set (join_indexers lk rk)" "fst e = None" by auto
  from join_sides[OF e(1)] e(2) have "key_value lk rk e \<notin> set lk" by simp
  moreover from e(1) have "key_value lk rk e \<in> set lk \<union> set rk"
    unfolding join_key_column_set[symmetric] by simp
  ultimately show "\<not> set rk \<subseteq> set lk" by auto
next
  assume "\<not> set rk \<subseteq> set lk"
  then obtain k where k: "k \<in> set rk" "k \<notin> set lk" by auto
  then have "positions k rk \<noteq> []" "positions k lk = []" by (simp_all add: positions_empty)
  then obtain j js where "key_group k lk rk = (None, Some j) # js"
    by (cases "positions k rk") (auto simp: key_group_def Let_def)
  then have "(None, Some j) \<in> set (key_group k lk rk)" by simp
  with k(1) have "(None, Some j) \<in> set (join_indexers lk rk)"
    by (auto simp: join_indexers_def)
  then show "None \<in> set (map fst (join_indexers lk rk))" by force
qed

lemma join_right_fill: "None \<in> set (map snd (join_indexers lk rk)) \<longleftrightarrow> \<not> set lk \<subseteq> set rk"
proof
  assume "None \<in> set (map snd (join_indexers lk rk))"
  then obtain e where e: "e \<in> set (join_indexers lk rk)" "snd e = None" by auto
  from join_sides[OF e(1)] e(2) have "key_value lk rk e \<notin> set rk" by simp
  moreover from e(1) have "key_value lk rk e \<in> set lk \<union> set rk"
    unfolding join_key_column_set[symmetric] by simp
  ultimately show "\<not> set lk \<subseteq> set rk" by auto
next
  assume "\<not> set lk \<subseteq> set rk"
  then obtain k where k: "k \<in> set lk" "k \<notin> set rk" by auto
  then have "positions k lk \<noteq> []" "positions k rk = []" by (simp_all add: positions_empty)
  then obtain i js where "key_group k lk rk = (Some i, None) # js"
    by (cases "positions k lk") (auto simp: key_group_def Let_def)
  then have "(Some i, None) \<in> set (key_group k lk rk)" by simp
  with k(1) have "(Some i, None) \<in> set (join_indexers lk rk)"
    by (auto simp: join_indexers_def)
  then show "None \<in> set (map snd (join_indexers lk rk))" by force
qed

lemma upcast_NaN [simp]: "carried fill d NaN = NaN"
  by (simp add: carried_def)

lemma take_fill_nth:
  "i < length ix \<Longrightarrow>
     take_fill d ix ! i =
       (case ix ! i of None \<Rightarrow> NaN | Some a \<Rightarrow> carried (None \<in> set ix) d (d ! a))"
  by (auto simp: take_fill_def Let_def carried_def split: option.splits)

lemma length_take_fill [simp]: "length (take_fill d ix) = length ix"
  by (simp add: take_fill_def Let_def)

lemma nth_not_in_take: "distinct xs \<Longrightarrow> i < length xs \<Longrightarrow> xs ! i \<notin> set (take i xs)"
  by (auto simp: in_set_conv_nth distinct_conv_nth)

lemma new_dups_distinct: "distinct labels \<Longrightarrow> new_dups labels names = []"
  by (auto simp: new_dups_def filter_empty_conv dest: nth_not_in_take)


lemma side_cols_key:
  "(on, d) \<in> set cs \<Longrightarrow>
     (on, map (key_value lk rk) ix) \<in> set (side_cols on tr sfx lk rk ix side cs)"
  by (force simp: side_cols_def)

lemma side_cols_other:
  "(n, d) \<in> set cs \<Longrightarrow> n \<noteq> on \<Longrightarrow>
     (suffixed tr sfx n, take_fill d (map side ix)) \<in> set (side_cols on tr sfx lk rk ix side cs)"
  by (force simp: side_cols_def)

lemma map_fst_side_cols:
  "map fst (side_cols on tr sfx lk rk ix side cs) =
     map (\<lambda>n. if n = on then on else suffixed tr sfx n) (map fst cs)"
  by (auto simp: side_cols_def)

lemma side_cols_lengths:
  "(n, d) \<in> set (side_cols on tr sfx lk rk ix side cs) \<Longrightarrow> length d = length ix"
  by (auto simp: side_cols_def split: if_splits)

lemma key_map_distinct:
  "distinct xs \<Longrightarrow> distinct (map h (filter (\<lambda>n. n \<noteq> on) xs)) \<Longrightarrow>
   on \<notin> set (map h (filter (\<lambda>n. n \<noteq> on) xs)) \<Longrightarrow>
     distinct (map (\<lambda>n. if n = on then on else h n) xs) \<and>
     set (map (\<lambda>n. if n = on then on else h n) xs) \<subseteq>
       insert on (set (map h (filter (\<lambda>n. n \<noteq> on) xs)))"
  by (induction xs) auto

lemma map_filter_key:
  "map (\<lambda>n. if n = on then on else h n) (filter (\<lambda>n. n \<noteq> on) xs) =
     map h (filter (\<lambda>n. n \<noteq> on) xs)"
  by (induction xs) auto

lemma distinct_sides:
  assumes "distinct X" "distinct Y" "set X \<subseteq> insert on SA" "set Y \<subseteq> SB"
    and "SA \<inter> SB = {}" "on \<notin> SB" "ind \<notin> SA" "ind \<notin> SB" "on \<noteq> ind"
  shows "distinct (X @ Y @ [ind])"
  using assms by (simp add: disjoint_iff subset_iff) blast

lemma overlap_set:
  assumes "li \<notin> set R" "ri \<notin> set L" "on \<in> set L" "li \<noteq> ri"
  shows "set (filter (\<lambda>c. c \<in> set (filter (\<lambda>n. n \<noteq> on) R @ [ri])) (L @ [li])) =
           {c. c \<noteq> on \<and> c \<in> set L \<and> c \<in> set R}"
  using assms by auto

lemma map_fst_filter_key:
  "map fst (filter (\<lambda>c. fst c \<noteq> on) cs) = filter (\<lambda>n. n \<noteq> on) (map fst cs)"
  by (induction cs) auto

text \<open>The labels of the two sides, for the renaming set of the merge.\<close>

lemma merge_labels:
  fixes cfg df_internal df_provider
  defines "on \<equiv> merge_key cfg"
  defines "Ln \<equiv> columns df_internal" and "Rn \<equiv> columns df_provider"
  defines "tr \<equiv> filter (\<lambda>c. c \<in> set (map fst (filter (\<lambda>c. fst c \<noteq> on) (cols df_provider))
                                         @ [''_right_indicator'']))
                   (map fst (cols df_internal) @ [''_left_indicator''])"
  assumes onL: "on \<in> set Ln"
    and res: "''_left_indicator'' \<notin> set Rn" "''_right_indicator'' \<notin> set Ln"
  shows "set tr = {c. c \<noteq> on \<and> c \<in> set Ln \<and> c \<in> set Rn}"
    and "\<And>n. n \<in> set Ln \<Longrightarrow>
           (if n = on then on else suffixed tr (fst (merge_suffixes cfg)) n) =
           (if n = on then on else internal_label cfg df_provider n)"
    and "\<And>n. n \<in> set Rn \<Longrightarrow> n \<noteq> on \<Longrightarrow>
           suffixed tr (snd (merge_suffixes cfg)) n = provider_label cfg df_internal n"
    and "\<And>n. n \<in> set Ln \<Longrightarrow> suffixed tr (fst (merge_suffixes cfg)) n =
           (if n = on then on else internal_label cfg df_provider n)"
proof -
  show tr: "set tr = {c. c \<noteq> on \<and> c \<in> set Ln \<and> c \<in> set Rn}"
    unfolding tr_def map_fst_filter_key
    using overlap_set[of "''_left_indicator''" "map fst (cols df_provider)" "''_right_indicator''"
        "map fst (cols df_internal)" on] res onL
    by (simp add: Ln_def Rn_def columns_def)
  show "(if n = on then on else suffixed tr (fst (merge_suffixes cfg)) n) =
           (if n = on then on else internal_label cfg df_provider n)" if "n \<in> set Ln" for n
    using that tr by (auto simp: suffixed_def internal_label_def Rn_def)
  show "suffixed tr (snd (merge_suffixes cfg)) n = provider_label cfg df_internal n"
    if "n \<in> set Rn" "n \<noteq> on" for n
    using that tr by (auto simp: suffixed_def provider_label_def Ln_def)
  show "suffixed tr (fst (merge_suffixes cfg)) n =
           (if n = on then on else internal_label cfg df_provider n)" if "n \<in> set Ln" for n
    using that tr by (auto simp: suffixed_def internal_label_def Rn_def)
qed


lemma if_chain:
  "(if a then Inl x else if b then Inl y else if c then Inl z else if d then Inl w else Inr v) = Inr m
     \<Longrightarrow> \<not> a \<and> \<not> b \<and> \<not> c \<and> \<not> d \<and> v = m"
  by (simp split: if_splits)

lemma merge_Inr:
  assumes "merge_dataframes df_internal df_provider cfg = Inr merged"
  obtains lk rk where
    "getitem df_internal (merge_key cfg) = Inr lk"
    "getitem df_provider (merge_key cfg) = Inr rk"
    "keys_compatible lk rk"
    "''_left_indicator'' \<notin> set (columns df_internal)"
    "''_left_indicator'' \<notin> set (columns df_provider)"
    "''_right_indicator'' \<notin> set (columns df_internal)"
    "''_right_indicator'' \<notin> set (columns df_provider)"
    "merge_indicator cfg \<notin> set (columns df_internal)"
    "merge_indicator cfg \<notin> set (columns df_provider)"
    "merged = assign
       \<lparr>index = [0..<length (join_indexers lk rk)],
        cols = side_cols (merge_key cfg)
                 (filter (\<lambda>c. c \<in> set (map fst (filter (\<lambda>c. fst c \<noteq> merge_key cfg) (cols df_provider))
                                         @ [''_right_indicator'']))
                    (map fst (cols df_internal) @ [''_left_indicator'']))
                 (fst (merge_suffixes cfg)) lk rk (join_indexers lk rk) fst (cols df_internal)
             @ side_cols (merge_key cfg)
                 (filter (\<lambda>c. c \<in> set (map fst (filter (\<lambda>c. fst c \<noteq> merge_key cfg) (cols df_provider))
                                         @ [''_right_indicator'']))
                    (map fst (cols df_internal) @ [''_left_indicator'']))
                 (snd (merge_suffixes cfg)) lk rk (join_indexers lk rk) snd
                 (filter (\<lambda>c. fst c \<noteq> merge_key cfg) (cols df_provider))\<rparr>
       (merge_indicator cfg) (map indicator_value (join_indexers lk rk))"
proof (cases "getitem df_provider (merge_key cfg)")
  case (Inl e)
  with assms show ?thesis by (simp add: merge_dataframes_def Let_def)
next
  case rk: (Inr rk)
  show ?thesis
  proof (cases "getitem df_internal (merge_key cfg)")
    case (Inl e)
    with assms rk show ?thesis by (simp add: merge_dataframes_def Let_def)
  next
    case lk: (Inr lk)
    note u = assms[unfolded merge_dataframes_def Let_def rk lk sum.case]
    note c = if_chain[OF u]
    from c[THEN conjunct1] have kc: "keys_compatible lk rk" by simp
    note names = c[THEN conjunct2, THEN conjunct1]
    note mg = c[THEN conjunct2, THEN conjunct2, THEN conjunct2, THEN conjunct2, symmetric]
    from names show ?thesis
      by (intro that[OF lk rk kc _ _ _ _ _ _ mg]) simp_all
  qed
qed

lemma if_chainI:
  "\<not> a \<Longrightarrow> \<not> b \<Longrightarrow> \<not> c \<Longrightarrow> \<not> d \<Longrightarrow>
   (if a then Inl x else if b then Inl y else if c then Inl z else if d then Inl w else Inr v)
     = Inr v"
  by simp

lemma merge_InrI:
  fixes df_internal df_provider :: frame and cfg :: config
  defines "lnames \<equiv> map fst (cols df_internal) @ [''_left_indicator'']"
    and "rnames \<equiv> map fst (filter (\<lambda>c. fst c \<noteq> merge_key cfg) (cols df_provider))
                      @ [''_right_indicator'']"
  defines "tr \<equiv> filter (\<lambda>c. c \<in> set rnames) lnames"
  defines "llabels \<equiv> map (suffixed tr (fst (merge_suffixes cfg))) lnames"
    and "rlabels \<equiv> map (suffixed tr (snd (merge_suffixes cfg))) rnames"
  assumes lk: "getitem df_internal (merge_key cfg) = Inr lk"
    and rk: "getitem df_provider (merge_key cfg) = Inr rk"
    and kc: "keys_compatible lk rk"
    and names: "''_left_indicator'' \<notin> set (columns df_internal @ columns df_provider)"
      "''_right_indicator'' \<notin> set (columns df_internal @ columns df_provider)"
      "merge_indicator cfg \<notin> set (columns df_internal @ columns df_provider)"
    and sfx: "tr = [] \<or> fst (merge_suffixes cfg) \<noteq> [] \<or> snd (merge_suffixes cfg) \<noteq> []"
    and dups: "tr = [] \<or>
        new_dups llabels lnames @ new_dups rlabels rnames
        @ filter (\<lambda>l. l \<in> set rnames \<and> l \<notin> set tr) llabels
        @ filter (\<lambda>l. l \<in> set lnames \<and> l \<notin> set tr) rlabels = []"
  shows "merge_dataframes df_internal df_provider cfg =
     Inr (assign
       \<lparr>index = [0..<length (join_indexers lk rk)],
        cols = side_cols (merge_key cfg) tr (fst (merge_suffixes cfg)) lk rk
                 (join_indexers lk rk) fst (cols df_internal)
             @ side_cols (merge_key cfg) tr (snd (merge_suffixes cfg)) lk rk
                 (join_indexers lk rk) snd
                 (filter (\<lambda>c. fst c \<noteq> merge_key cfg) (cols df_provider))\<rparr>
       (merge_indicator cfg) (map indicator_value (join_indexers lk rk)))"
proof -
  note d = tr_def llabels_def rlabels_def lnames_def rnames_def
  show ?thesis
    unfolding merge_dataframes_def Let_def rk lk sum.case d
  proof (rule if_chainI)
    show "\<not> \<not> keys_compatible lk rk" using kc by simp
  next
    from names show "\<not> (''_left_indicator'' \<in> set (columns df_internal @ columns df_provider) \<or>
        ''_right_indicator'' \<in> set (columns df_internal @ columns df_provider) \<or>
        merge_indicator cfg \<in> set (columns df_internal @ columns df_provider))"
      by blast
  next
    from sfx[unfolded d] show "\<not> (filter (\<lambda>c. c \<in> set (map fst (filter (\<lambda>c. fst c \<noteq> merge_key cfg) (cols df_provider))
                      @ [''_right_indicator''])) (map fst (cols df_internal) @ [''_left_indicator'']) \<noteq> [] \<and>
       fst (merge_suffixes cfg) = [] \<and> snd (merge_suffixes cfg) = [])"
      by blast
  next
    from dups[unfolded d] show "\<not> (filter (\<lambda>c. c \<in> set (map fst (filter (\<lambda>c. fst c \<noteq> merge_key cfg) (cols df_provider))
                      @ [''_right_indicator''])) (map fst (cols df_internal) @ [''_left_indicator'']) \<noteq> [] \<and>
       new_dups (map (suffixed (filter (\<lambda>c. c \<in> set (map fst (filter (\<lambda>c. fst c \<noteq> merge_key cfg) (cols df_provider))
                      @ [''_right_indicator''])) (map fst (cols df_internal) @ [''_left_indicator''])) (fst (merge_suffixes cfg))) (map fst (cols df_internal) @ [''_left_indicator'']))
          (map fst (cols df_internal) @ [''_left_indicator''])
        @ new_dups (map (suffixed (filter (\<lambda>c. c \<in> set (map fst (filter (\<lambda>c. fst c \<noteq> merge_key cfg) (cols df_provider))
                      @ [''_right_indicator''])) (map fst (cols df_internal) @ [''_left_indicator''])) (snd (merge_suffixes cfg))) (map fst (filter (\<lambda>c. fst c \<noteq> merge_key cfg) (cols df_provider))
                      @ [''_right_indicator'']))
           (map fst (filter (\<lambda>c. fst c \<noteq> merge_key cfg) (cols df_provider))
                      @ [''_right_indicator''])
        @ filter (\<lambda>l. l \<in> set (map fst (filter (\<lambda>c. fst c \<noteq> merge_key cfg) (cols df_provider))
                      @ [''_right_indicator'']) \<and> l \<notin> set (filter (\<lambda>c. c \<in> set (map fst (filter (\<lambda>c. fst c \<noteq> merge_key cfg) (cols df_provider))
                      @ [''_right_indicator''])) (map fst (cols df_internal) @ [''_left_indicator''])))
            (map (suffixed (filter (\<lambda>c. c \<in> set (map fst (filter (\<lambda>c. fst c \<noteq> merge_key cfg) (cols df_provider))
                      @ [''_right_indicator''])) (map fst (cols df_internal) @ [''_left_indicator''])) (fst (merge_suffixes cfg))) (map fst (cols df_internal) @ [''_left_indicator'']))
        @ filter (\<lambda>l. l \<in> set (map fst (cols df_internal) @ [''_left_indicator'']) \<and> l \<notin> set (filter (\<lambda>c. c \<in> set (map fst (filter (\<lambda>c. fst c \<noteq> merge_key cfg) (cols df_provider))
                      @ [''_right_indicator''])) (map fst (cols df_internal) @ [''_left_indicator''])))
            (map (suffixed (filter (\<lambda>c. c \<in> set (map fst (filter (\<lambda>c. fst c \<noteq> merge_key cfg) (cols df_provider))
                      @ [''_right_indicator''])) (map fst (cols df_internal) @ [''_left_indicator''])) (snd (merge_suffixes cfg))) (map fst (filter (\<lambda>c. fst c \<noteq> merge_key cfg) (cols df_provider))
                      @ [''_right_indicator''])) \<noteq> [])"
      by blast
  qed
qed


lemma columns_assign_new:
  "c \<notin> set (columns df) \<Longrightarrow> cols (assign df c d) = cols df @ [(c, d)]"
  by (simp add: assign_def)

lemma index_assign [simp]: "index (assign df c d) = index df"
  by (simp add: assign_def)

lemma merge_columns:
  assumes m: "merge_dataframes df_internal df_provider cfg = Inr merged"
    and wl: "wf_frame df_internal" and wr: "wf_frame df_provider"
    and dl: "distinct (merged_labels cfg df_internal df_provider)"
  obtains lk rk where
    "getitem df_internal (merge_key cfg) = Inr lk"
    "getitem df_provider (merge_key cfg) = Inr rk"
    "keys_compatible lk rk"
    "index merged = [0..<length (join_indexers lk rk)]"
    "wf_frame merged"
    "(merge_key cfg, map (key_value lk rk) (join_indexers lk rk)) \<in> set (cols merged)"
    "(merge_indicator cfg, map indicator_value (join_indexers lk rk)) \<in> set (cols merged)"
    "\<And>n d. (n, d) \<in> set (cols df_internal) \<Longrightarrow> n \<noteq> merge_key cfg \<Longrightarrow>
       (internal_label cfg df_provider n, take_fill d (map fst (join_indexers lk rk)))
         \<in> set (cols merged)"
    "\<And>n d. (n, d) \<in> set (cols df_provider) \<Longrightarrow> n \<noteq> merge_key cfg \<Longrightarrow>
       (provider_label cfg df_internal n, take_fill d (map snd (join_indexers lk rk)))
         \<in> set (cols merged)"
proof (rule merge_Inr[OF m])
  fix lk rk
  let ?on = "merge_key cfg" and ?ind = "merge_indicator cfg"
  let ?sl = "fst (merge_suffixes cfg)" and ?sr = "snd (merge_suffixes cfg)"
  let ?Ln = "columns df_internal" and ?Rn = "columns df_provider"
  let ?il = "internal_label cfg df_provider" and ?pl = "provider_label cfg df_internal"
  let ?A = "map ?il (filter (\<lambda>n. n \<noteq> ?on) ?Ln)"
  let ?B = "map ?pl (filter (\<lambda>n. n \<noteq> ?on) ?Rn)"
  let ?gL = "\<lambda>n. if n = ?on then ?on else ?il n"
  let ?ix = "join_indexers lk rk"
  let ?rcols = "filter (\<lambda>c. fst c \<noteq> ?on) (cols df_provider)"
  define tr where "tr = filter (\<lambda>c. c \<in> set (map fst ?rcols @ [''_right_indicator'']))
               (map fst (cols df_internal) @ [''_left_indicator''])"
  let ?L = "side_cols ?on tr ?sl lk rk ?ix fst (cols df_internal)"
  let ?R = "side_cols ?on tr ?sr lk rk ?ix snd ?rcols"
  let ?pre = "\<lparr>index = [0..<length ?ix], cols = ?L @ ?R\<rparr>"
  assume lk: "getitem df_internal ?on = Inr lk" and rk: "getitem df_provider ?on = Inr rk"
    and kc: "keys_compatible lk rk"
    and res: "''_left_indicator'' \<notin> set ?Rn" "''_right_indicator'' \<notin> set ?Ln"
    and mg0: "merged = assign
       \<lparr>index = [0..<length (join_indexers lk rk)],
        cols = side_cols (merge_key cfg)
                 (filter (\<lambda>c. c \<in> set (map fst (filter (\<lambda>c. fst c \<noteq> merge_key cfg) (cols df_provider))
                                         @ [''_right_indicator'']))
                    (map fst (cols df_internal) @ [''_left_indicator'']))
                 (fst (merge_suffixes cfg)) lk rk (join_indexers lk rk) fst (cols df_internal)
             @ side_cols (merge_key cfg)
                 (filter (\<lambda>c. c \<in> set (map fst (filter (\<lambda>c. fst c \<noteq> merge_key cfg) (cols df_provider))
                                         @ [''_right_indicator'']))
                    (map fst (cols df_internal) @ [''_left_indicator'']))
                 (snd (merge_suffixes cfg)) lk rk (join_indexers lk rk) snd
                 (filter (\<lambda>c. fst c \<noteq> merge_key cfg) (cols df_provider))\<rparr>
       (merge_indicator cfg) (map indicator_value (join_indexers lk rk))"
  have mg: "merged = assign ?pre ?ind (map indicator_value ?ix)"
    unfolding tr_def by (rule mg0)
  from getitem_mem[OF lk] have onL: "?on \<in> set ?Ln" by (force simp: columns_def)
  note lab = merge_labels[OF onL res, folded tr_def]
  from dl have dA: "distinct ?A" and dB: "distinct ?B" and AB: "set ?A \<inter> set ?B = {}"
    and onA: "?on \<notin> set ?A" and onB: "?on \<notin> set ?B"
    and indA: "?ind \<notin> set ?A" and indB: "?ind \<notin> set ?B" and oi: "?on \<noteq> ?ind"
    by (auto simp: merged_labels_def)
  from wl have dLn: "distinct ?Ln" by (simp add: wf_frame_def)
  from key_map_distinct[OF dLn dA onA]
  have kL: "distinct (map ?gL ?Ln)" "set (map ?gL ?Ln) \<subseteq> insert ?on (set ?A)" by simp_all
  have Ll: "map fst ?L = map ?gL ?Ln"
    unfolding map_fst_side_cols columns_def[symmetric]
    by (rule map_cong[OF refl]) (rule lab(2))
  have "map fst ?R = map (\<lambda>n. if n = ?on then ?on else suffixed tr ?sr n)
                       (filter (\<lambda>n. n \<noteq> ?on) ?Rn)"
    unfolding map_fst_side_cols map_fst_filter_key columns_def[symmetric] ..
  also have "\<dots> = map (suffixed tr ?sr) (filter (\<lambda>n. n \<noteq> ?on) ?Rn)"
    by (rule map_filter_key)
  also have "\<dots> = ?B"
    by (rule map_cong[OF refl]) (rule lab(3), simp_all)
  finally have Rl: "map fst ?R = ?B" .
  have dcols: "distinct (map fst ?L @ map fst ?R @ [?ind])"
    unfolding Ll Rl
    by (rule distinct_sides[OF kL(1) dB kL(2) _ AB onB indA indB oi]) simp
  then have fresh: "?ind \<notin> set (columns ?pre)" by (simp add: columns_def)
  from mg columns_assign_new[OF fresh]
  have cm: "cols merged = ?L @ ?R @ [(?ind, map indicator_value ?ix)]" by simp
  from mg have im: "index merged = [0..<length ?ix]" by simp
  have "distinct (columns merged)" using dcols by (simp add: columns_def cm)
  moreover have "list_all (\<lambda>c. length (snd c) = nrows merged) (cols merged)"
    unfolding cm by (auto simp: list_all_iff nrows_def im dest: side_cols_lengths)
  ultimately have wm: "wf_frame merged" unfolding wf_frame_def by (rule conjI)
  have key: "(?on, map (key_value lk rk) ?ix) \<in> set (cols merged)"
    using side_cols_key[OF getitem_mem[OF lk], of lk rk ?ix tr ?sl fst] by (simp add: cm)
  have ind: "(?ind, map indicator_value ?ix) \<in> set (cols merged)" by (simp add: cm)
  have left: "(?il n, take_fill d (map fst ?ix)) \<in> set (cols merged)"
    if "(n, d) \<in> set (cols df_internal)" "n \<noteq> ?on" for n d
  proof -
    from that(1) have "n \<in> set ?Ln" by (force simp: columns_def)
    from lab(2)[OF this] that(2) have "suffixed tr ?sl n = ?il n" by simp
    with side_cols_other[OF that, of tr ?sl fst ?ix lk rk] show ?thesis by (simp add: cm)
  qed
  have right: "(?pl n, take_fill d (map snd ?ix)) \<in> set (cols merged)"
    if "(n, d) \<in> set (cols df_provider)" "n \<noteq> ?on" for n d
  proof -
    from that have r: "(n, d) \<in> set ?rcols" by simp
    from that(1) have "n \<in> set ?Rn" by (force simp: columns_def)
    from lab(3)[OF this that(2)] side_cols_other[OF r that(2), of tr ?sr snd ?ix lk rk]
    show ?thesis by (simp add: cm)
  qed
  show ?thesis
    by (rule that[OF lk rk kc im wm key ind left right])
qed


text \<open>
  C4. When the configured merge key is not a column of one of the two datasets, the
  merge fails with the KeyError that names the key, no merged table is returned, and
  the reconciliation run fails with that same error.
\<close>

theorem merge_key_missing_fails:
  assumes "merge_key cfg \<notin> set (columns df_internal) \<or> merge_key cfg \<notin> set (columns df_provider)"
  shows "merge_dataframes df_internal df_provider cfg = Inl (KeyError (merge_key cfg)) \<and>
         reconcile cfg df_internal df_provider = Inl (KeyError (merge_key cfg))"
proof -
  have "merge_dataframes df_internal df_provider cfg = Inl (KeyError (merge_key cfg))"
  proof (cases "getitem df_provider (merge_key cfg)")
    case (Inl e)
    with getitem_Inl[OF Inl] show ?thesis
      by (simp add: merge_dataframes_def Let_def)
  next
    case (Inr rk)
    then have "merge_key cfg \<in> set (columns df_provider)"
      by (force simp: columns_def dest: getitem_mem)
    with assms have "getitem df_internal (merge_key cfg) = Inl (KeyError (merge_key cfg))"
      by (simp add: getitem_missing)
    with Inr show ?thesis by (simp add: merge_dataframes_def Let_def)
  qed
  then show ?thesis by (simp add: reconcile_def)
qed

lemma count_list_distinct:
  "distinct xs \<Longrightarrow> count_list xs k = (if k \<in> set xs then 1 else 0)"
  by (induction xs) auto

lemma merged_key_count:
  assumes "wf_frame df_internal" "wf_frame df_provider"
    and "getitem df_internal (merge_key cfg) = Inr lk"
    and "getitem df_provider (merge_key cfg) = Inr rk"
    and "merge_dataframes df_internal df_provider cfg = Inr merged"
    and "distinct (merged_labels cfg df_internal df_provider)"
  shows "key_count merged (merge_key cfg) k =
     (if count_list rk k = 0 then count_list lk k
      else if count_list lk k = 0 then count_list rk k
      else count_list lk k * count_list rk k)"
proof (rule merge_columns[OF assms(5,1,2,6)])
  fix lk' rk'
  assume "getitem df_internal (merge_key cfg) = Inr lk'"
    "getitem df_provider (merge_key cfg) = Inr rk'"
    and wm: "wf_frame merged"
    and key: "(merge_key cfg, map (key_value lk' rk') (join_indexers lk' rk')) \<in> set (cols merged)"
  with assms(3,4) have eq: "lk' = lk" "rk' = rk" by simp_all
  from wm have "distinct (map fst (cols merged))" by (simp add: wf_frame_def columns_def)
  with key have "map_of (cols merged) (merge_key cfg) =
      Some (map (key_value lk rk) (join_indexers lk rk))"
    by (simp add: eq)
  then show ?thesis by (simp add: key_count_def join_key_column_count)
qed

text \<open>
  C5, as amended. Take two datasets with unique column labels and the key column, in
  which no key value occurs twice within the internal dataset nor twice within the
  provider dataset and every key value is one that 64-bit floating point holds exactly
  (\<open>exact_key\<close>), merged with success into a table whose labels (\<open>merged_labels\<close>) are
  all different. Then every key
  value of either dataset is the key of exactly one row of the merged table, and every
  row of the merged table has a key value of one of the datasets. A row whose key both
  datasets have is marked \<open>both\<close>, one whose key only the internal dataset has
  \<open>left_only\<close>, one whose key only the provider dataset has \<open>right_only\<close>. In each column
  that comes from a dataset, other than the key, the row holds the value of that
  dataset's row with the same key (\<open>carried\<close>: converted to floating point when the
  column is numeric and some row of the merged table has no partner in that dataset),
  and the missing value when that dataset does not have the key.
\<close>

theorem merge_unique_keys_one_row_each:
  assumes wl: "wf_frame df_internal" and wr: "wf_frame df_provider"
    and lk: "getitem df_internal (merge_key cfg) = Inr lk"
    and rk: "getitem df_provider (merge_key cfg) = Inr rk"
    and dlk: "distinct lk" and drk: "distinct rk"
    and ek: "list_all exact_key lk" "list_all exact_key rk"
    and m: "merge_dataframes df_internal df_provider cfg = Inr merged"
    and dl: "distinct (merged_labels cfg df_internal df_provider)"
  shows "(\<forall>k\<in>set lk \<union> set rk. key_count merged (merge_key cfg) k = 1) \<and>
         (\<forall>i<nrows merged. value_at merged (merge_key cfg) i \<noteq> None) \<and>
         (\<forall>i<nrows merged. \<forall>k. value_at merged (merge_key cfg) i = Some k \<longrightarrow>
            k \<in> set lk \<union> set rk \<and>
            value_at merged (merge_indicator cfg) i =
              Some (Str (if k \<in> set lk \<and> k \<in> set rk then ''both''
                         else if k \<in> set lk then ''left_only'' else ''right_only'')) \<and>
            (\<forall>(n, d)\<in>set (cols df_internal). n \<noteq> merge_key cfg \<longrightarrow>
               (k \<notin> set lk \<longrightarrow>
                  value_at merged (internal_label cfg df_provider n) i = Some NaN) \<and>
               (\<forall>a<length lk. lk ! a = k \<longrightarrow>
                  value_at merged (internal_label cfg df_provider n) i =
                    Some (carried (\<not> set rk \<subseteq> set lk) d (d ! a)))) \<and>
            (\<forall>(n, d)\<in>set (cols df_provider). n \<noteq> merge_key cfg \<longrightarrow>
               (k \<notin> set rk \<longrightarrow>
                  value_at merged (provider_label cfg df_internal n) i = Some NaN) \<and>
               (\<forall>b<length rk. rk ! b = k \<longrightarrow>
                  value_at merged (provider_label cfg df_internal n) i =
                    Some (carried (\<not> set lk \<subseteq> set rk) d (d ! b)))))"
proof (rule merge_columns[OF m wl wr dl])
  fix lk' rk'
  assume g: "getitem df_internal (merge_key cfg) = Inr lk'"
    "getitem df_provider (merge_key cfg) = Inr rk'"
    and idx: "index merged = [0..<length (join_indexers lk' rk')]"
    and wm: "wf_frame merged"
    and key: "(merge_key cfg, map (key_value lk' rk') (join_indexers lk' rk')) \<in> set (cols merged)"
    and ind: "(merge_indicator cfg, map indicator_value (join_indexers lk' rk')) \<in> set (cols merged)"
    and left: "\<And>n d. (n, d) \<in> set (cols df_internal) \<Longrightarrow> n \<noteq> merge_key cfg \<Longrightarrow>
       (internal_label cfg df_provider n, take_fill d (map fst (join_indexers lk' rk')))
         \<in> set (cols merged)"
    and right: "\<And>n d. (n, d) \<in> set (cols df_provider) \<Longrightarrow> n \<noteq> merge_key cfg \<Longrightarrow>
       (provider_label cfg df_internal n, take_fill d (map snd (join_indexers lk' rk')))
         \<in> set (cols merged)"
  from g lk rk have eq: "lk' = lk" "rk' = rk" by simp_all
  let ?ix = "join_indexers lk rk"
  have n: "nrows merged = length ?ix" by (simp add: nrows_def idx eq)
  from wm have dm: "distinct (columns merged)" by (simp add: wf_frame_def)
  note va = value_at_distinct[OF dm]
  have one: "key_count merged (merge_key cfg) k = 1" if "k \<in> set lk \<union> set rk" for k
  proof -
    from dlk drk have "count_list lk k = (if k \<in> set lk then 1 else 0)"
      "count_list rk k = (if k \<in> set rk then 1 else 0)"
      by (simp_all add: count_list_distinct)
    with that show ?thesis
      unfolding merged_key_count[OF wl wr lk rk m dl] by auto
  qed
  have kv: "value_at merged (merge_key cfg) i = Some (key_value lk rk (?ix ! i))"
    if "i < nrows merged" for i
    using va[OF key[unfolded eq], of i] that n by simp
  have row: "k \<in> set lk \<union> set rk \<and>
            value_at merged (merge_indicator cfg) i =
              Some (Str (if k \<in> set lk \<and> k \<in> set rk then ''both''
                         else if k \<in> set lk then ''left_only'' else ''right_only'')) \<and>
            (\<forall>(c, d)\<in>set (cols df_internal). c \<noteq> merge_key cfg \<longrightarrow>
               (k \<notin> set lk \<longrightarrow>
                  value_at merged (internal_label cfg df_provider c) i = Some NaN) \<and>
               (\<forall>a<length lk. lk ! a = k \<longrightarrow>
                  value_at merged (internal_label cfg df_provider c) i =
                    Some (carried (\<not> set rk \<subseteq> set lk) d (d ! a)))) \<and>
            (\<forall>(c, d)\<in>set (cols df_provider). c \<noteq> merge_key cfg \<longrightarrow>
               (k \<notin> set rk \<longrightarrow>
                  value_at merged (provider_label cfg df_internal c) i = Some NaN) \<and>
               (\<forall>b<length rk. rk ! b = k \<longrightarrow>
                  value_at merged (provider_label cfg df_internal c) i =
                    Some (carried (\<not> set lk \<subseteq> set rk) d (d ! b))))"
    if i: "i < nrows merged" and k: "value_at merged (merge_key cfg) i = Some k" for i k
  proof -
    from i n have il: "i < length ?ix" by simp
    then have e: "?ix ! i \<in> set ?ix" by simp
    from kv[OF i] k have ke: "key_value lk rk (?ix ! i) = k" by simp
    from e have "key_value lk rk (?ix ! i) \<in> set lk \<union> set rk"
      unfolding join_key_column_set[symmetric] by simp
    then have mem: "k \<in> set lk \<union> set rk" by (simp add: ke)
    from join_indicator[OF e] va[OF ind[unfolded eq], of i] il
    have mark: "value_at merged (merge_indicator cfg) i =
              Some (Str (if k \<in> set lk \<and> k \<in> set rk then ''both''
                         else if k \<in> set lk then ''left_only'' else ''right_only''))"
      by (simp add: ke)
    note js = join_sides[OF e, unfolded ke]
    have lside: "(k \<notin> set lk \<longrightarrow>
                  value_at merged (internal_label cfg df_provider c) i = Some NaN) \<and>
               (\<forall>a<length lk. lk ! a = k \<longrightarrow>
                  value_at merged (internal_label cfg df_provider c) i =
                    Some (carried (\<not> set rk \<subseteq> set lk) d (d ! a)))"
      if c: "(c, d) \<in> set (cols df_internal)" "c \<noteq> merge_key cfg" for c d
    proof -
      from va[OF left[OF c, unfolded eq], of i] il
      have v: "value_at merged (internal_label cfg df_provider c) i =
          Some (case fst (?ix ! i) of None \<Rightarrow> NaN
                | Some a \<Rightarrow> carried (None \<in> set (map fst ?ix)) d (d ! a))"
        by (simp add: take_fill_nth)
      note fl = join_left_fill[of lk rk] join_left_fill[of lk rk, unfolded set_map]
      show ?thesis
      proof (cases "fst (?ix ! i)")
        case None
        with js have "k \<notin> set lk" by simp
        with v None show ?thesis by (auto simp: in_set_conv_nth)
      next
        case (Some a')
        with js have a': "a' < length lk" "lk ! a' = k" by simp_all
        then have "k \<in> set lk" by auto
        moreover have "a = a'" if "a < length lk" "lk ! a = k" for a
          using nth_eq_iff_index_eq[OF dlk that(1) a'(1)] that(2) a'(2) by simp
        ultimately show ?thesis using v Some by (auto simp: fl)
      qed
    qed
    have rside: "(k \<notin> set rk \<longrightarrow>
                  value_at merged (provider_label cfg df_internal c) i = Some NaN) \<and>
               (\<forall>b<length rk. rk ! b = k \<longrightarrow>
                  value_at merged (provider_label cfg df_internal c) i =
                    Some (carried (\<not> set lk \<subseteq> set rk) d (d ! b)))"
      if c: "(c, d) \<in> set (cols df_provider)" "c \<noteq> merge_key cfg" for c d
    proof -
      from va[OF right[OF c, unfolded eq], of i] il
      have v: "value_at merged (provider_label cfg df_internal c) i =
          Some (case snd (?ix ! i) of None \<Rightarrow> NaN
                | Some b \<Rightarrow> carried (None \<in> set (map snd ?ix)) d (d ! b))"
        by (simp add: take_fill_nth)
      note fl = join_right_fill[of lk rk] join_right_fill[of lk rk, unfolded set_map]
      show ?thesis
      proof (cases "snd (?ix ! i)")
        case None
        with js have "k \<notin> set rk" by simp
        with v None show ?thesis by (auto simp: in_set_conv_nth)
      next
        case (Some b')
        with js have b': "b' < length rk" "rk ! b' = k" by simp_all
        then have "k \<in> set rk" by auto
        moreover have "b = b'" if "b < length rk" "rk ! b = k" for b
          using nth_eq_iff_index_eq[OF drk that(1) b'(1)] that(2) b'(2) by simp
        ultimately show ?thesis using v Some by (auto simp: fl)
      qed
    qed
    from mem mark lside rside show ?thesis by blast
  qed
  have some: "value_at merged (merge_key cfg) i \<noteq> None" if "i < nrows merged" for i
    using kv[OF that] by simp
  from one some row show ?thesis by blast
qed

lemma join_dup_ex:
  "join_indexers [Str ''T1'', Str ''T1''] [Str ''T1''] = [(Some 0, Some 0), (Some 1, Some 0)]"
  by (simp add: join_indexers_def key_group_def positions_def upt_rec)

lemma join_io_ex:
  "join_indexers [Str ''T1'', Str ''T3''] [Str ''T2'', Str ''T1''] =
     [(Some 0, Some 1), (None, Some 0), (Some 1, None)]"
  by (simp add: join_indexers_def key_group_def positions_def upt_rec)

lemma round53_small: "\<bar>n\<bar> < 2 ^ 53 \<Longrightarrow> round53 n = n"
  by (simp add: round53_def)

lemma merge_io_ex: "merge_dataframes internal_ex provider_ex cfg_ex = Inr merged_io_ex"
proof -
  have lk: "getitem internal_ex (merge_key cfg_ex) = Inr [Str ''T1'', Str ''T3'']"
    and rk: "getitem provider_ex (merge_key cfg_ex) = Inr [Str ''T2'', Str ''T1'']"
    by (simp_all add: getitem_def internal_ex_def provider_ex_def cfg_ex_def)
  have kc: "keys_compatible [Str ''T1'', Str ''T3''] [Str ''T2'', Str ''T1'']"
    by (simp add: keys_compatible_def text_column_def)
  have m: "merge_dataframes internal_ex provider_ex cfg_ex = Inr (assign
       \<lparr>index = [0..<length (join_indexers [Str ''T1'', Str ''T3''] [Str ''T2'', Str ''T1''])],
        cols = side_cols ''ref'' [''amount''] ''_internal'' [Str ''T1'', Str ''T3''] [Str ''T2'', Str ''T1'']
                 (join_indexers [Str ''T1'', Str ''T3''] [Str ''T2'', Str ''T1'']) fst (cols internal_ex)
             @ side_cols ''ref'' [''amount''] ''_provider'' [Str ''T1'', Str ''T3''] [Str ''T2'', Str ''T1'']
                 (join_indexers [Str ''T1'', Str ''T3''] [Str ''T2'', Str ''T1'']) snd
                 (filter (\<lambda>c. fst c \<noteq> ''ref'') (cols provider_ex))\<rparr>
       ''_merge'' (map indicator_value (join_indexers [Str ''T1'', Str ''T3''] [Str ''T2'', Str ''T1''])))"
    using merge_InrI[OF lk rk kc]
    by (simp add: internal_ex_def provider_ex_def cfg_ex_def columns_def suffixed_def
        new_dups_distinct)
  show ?thesis
    unfolding m join_io_ex
    by (simp add: internal_ex_def provider_ex_def merged_io_ex_def side_cols_def take_fill_def
        text_column_def assign_def columns_def suffixed_def round53_small)
qed


lemma merge_dup_ex: "merge_dataframes dup_internal_ex one_provider_ex cfg_ex = Inr merged_dup_ex"
proof -
  have lk: "getitem dup_internal_ex (merge_key cfg_ex) = Inr [Str ''T1'', Str ''T1'']"
    and rk: "getitem one_provider_ex (merge_key cfg_ex) = Inr [Str ''T1'']"
    by (simp_all add: getitem_def dup_internal_ex_def one_provider_ex_def cfg_ex_def)
  have kc: "keys_compatible [Str ''T1'', Str ''T1''] [Str ''T1'']"
    by (simp add: keys_compatible_def text_column_def)
  have m: "merge_dataframes dup_internal_ex one_provider_ex cfg_ex = Inr (assign
       \<lparr>index = [0..<length (join_indexers [Str ''T1'', Str ''T1''] [Str ''T1''])],
        cols = side_cols ''ref'' [''amount''] ''_internal'' [Str ''T1'', Str ''T1''] [Str ''T1'']
                 (join_indexers [Str ''T1'', Str ''T1''] [Str ''T1'']) fst (cols dup_internal_ex)
             @ side_cols ''ref'' [''amount''] ''_provider'' [Str ''T1'', Str ''T1''] [Str ''T1'']
                 (join_indexers [Str ''T1'', Str ''T1''] [Str ''T1'']) snd
                 (filter (\<lambda>c. fst c \<noteq> ''ref'') (cols one_provider_ex))\<rparr>
       ''_merge'' (map indicator_value (join_indexers [Str ''T1'', Str ''T1''] [Str ''T1''])))"
    using merge_InrI[OF lk rk kc]
    by (simp add: dup_internal_ex_def one_provider_ex_def cfg_ex_def columns_def suffixed_def
        new_dups_distinct)
  show ?thesis
    unfolding m join_dup_ex
    by (simp add: dup_internal_ex_def one_provider_ex_def merged_dup_ex_def side_cols_def
        take_fill_def text_column_def assign_def columns_def suffixed_def round53_small)
qed


theorem merge_key_missing_fails_witness:
  "merge_key cfg_ex \<notin> set (columns no_key_ex) \<and>
   merge_dataframes no_key_ex provider_ex cfg_ex = Inl (KeyError ''ref'') \<and>
   reconcile cfg_ex no_key_ex provider_ex = Inl (KeyError ''ref'')"
proof -
  have h: "merge_key cfg_ex \<notin> set (columns no_key_ex)"
    by (simp add: cfg_ex_def no_key_ex_def columns_def)
  then have "merge_key cfg_ex \<notin> set (columns no_key_ex) \<or>
             merge_key cfg_ex \<notin> set (columns provider_ex)" ..
  from merge_key_missing_fails[OF this] h show ?thesis by (simp add: cfg_ex_def)
qed

text \<open>
  C5, as stated, fails when a key value repeats within one dataset: the internal
  dataset \<open>dup_internal_ex\<close> carries \<open>T1\<close> twice, the provider dataset once, and the
  merged table has two rows with the key \<open>T1\<close>.
\<close>

theorem merge_duplicate_key_two_rows:
  "wf_frame dup_internal_ex \<and> wf_frame one_provider_ex \<and>
   merge_key cfg_ex \<in> set (columns dup_internal_ex) \<and>
   merge_key cfg_ex \<in> set (columns one_provider_ex) \<and>
   merge_dataframes dup_internal_ex one_provider_ex cfg_ex = Inr merged_dup_ex \<and>
   key_count merged_dup_ex (merge_key cfg_ex) (Str ''T1'') = 2"
proof -
  have "wf_frame dup_internal_ex" "wf_frame one_provider_ex"
    by (simp_all add: wf_frame_def dup_internal_ex_def one_provider_ex_def columns_def nrows_def)
  moreover have "merge_key cfg_ex \<in> set (columns dup_internal_ex)"
    "merge_key cfg_ex \<in> set (columns one_provider_ex)"
    by (simp_all add: dup_internal_ex_def one_provider_ex_def columns_def cfg_ex_def)
  moreover have "key_count merged_dup_ex (merge_key cfg_ex) (Str ''T1'') = 2"
    by (simp add: key_count_def merged_dup_ex_def cfg_ex_def)
  ultimately show ?thesis using merge_dup_ex by blast
qed

theorem merge_unique_keys_one_row_each_witness:
  "wf_frame internal_ex \<and> wf_frame provider_ex \<and>
   getitem internal_ex (merge_key cfg_ex) = Inr [Str ''T1'', Str ''T3''] \<and>
   getitem provider_ex (merge_key cfg_ex) = Inr [Str ''T2'', Str ''T1''] \<and>
   distinct [Str ''T1'', Str ''T3''] \<and> distinct [Str ''T2'', Str ''T1''] \<and>
   list_all exact_key [Str ''T1'', Str ''T3''] \<and> list_all exact_key [Str ''T2'', Str ''T1''] \<and>
   merge_dataframes internal_ex provider_ex cfg_ex = Inr merged_io_ex \<and>
   distinct (merged_labels cfg_ex internal_ex provider_ex) \<and>
   key_count merged_io_ex (merge_key cfg_ex) (Str ''T1'') = 1 \<and>
   key_count merged_io_ex (merge_key cfg_ex) (Str ''T2'') = 1 \<and>
   key_count merged_io_ex (merge_key cfg_ex) (Str ''T3'') = 1 \<and>
   value_at merged_io_ex (merge_key cfg_ex) 0 = Some (Str ''T1'') \<and>
   value_at merged_io_ex (merge_indicator cfg_ex) 0 = Some (Str ''both'') \<and>
   value_at merged_io_ex (internal_label cfg_ex provider_ex ''amount'') 0 = Some (Num 10) \<and>
   value_at merged_io_ex (provider_label cfg_ex internal_ex ''amount'') 0 = Some (Num 10) \<and>
   value_at merged_io_ex (merge_key cfg_ex) 1 = Some (Str ''T2'') \<and>
   value_at merged_io_ex (merge_indicator cfg_ex) 1 = Some (Str ''right_only'') \<and>
   value_at merged_io_ex (internal_label cfg_ex provider_ex ''amount'') 1 = Some NaN \<and>
   value_at merged_io_ex (provider_label cfg_ex internal_ex ''amount'') 1 = Some (Num 12) \<and>
   value_at merged_io_ex (merge_key cfg_ex) 2 = Some (Str ''T3'') \<and>
   value_at merged_io_ex (merge_indicator cfg_ex) 2 = Some (Str ''left_only'') \<and>
   value_at merged_io_ex (internal_label cfg_ex provider_ex ''amount'') 2 = Some (Num 5) \<and>
   value_at merged_io_ex (provider_label cfg_ex internal_ex ''amount'') 2 = Some NaN"
proof -
  have w: "wf_frame internal_ex" "wf_frame provider_ex"
    by (simp_all add: wf_frame_def internal_ex_def provider_ex_def columns_def nrows_def)
  have g: "getitem internal_ex (merge_key cfg_ex) = Inr [Str ''T1'', Str ''T3'']"
    "getitem provider_ex (merge_key cfg_ex) = Inr [Str ''T2'', Str ''T1'']"
    by (simp_all add: getitem_def internal_ex_def provider_ex_def cfg_ex_def)
  have d: "distinct [Str ''T1'', Str ''T3'']" "distinct [Str ''T2'', Str ''T1'']"
    by simp_all
  have e: "list_all exact_key [Str ''T1'', Str ''T3'']" "list_all exact_key [Str ''T2'', Str ''T1'']"
    by (simp_all add: exact_key_def)
  have dm: "distinct (merged_labels cfg_ex internal_ex provider_ex)"
    by (simp add: merged_labels_def internal_label_def provider_label_def columns_def
        internal_ex_def provider_ex_def cfg_ex_def)
  note t = merge_unique_keys_one_row_each[OF w g d e merge_io_ex dm]
  note t1 = t[THEN conjunct1, rule_format]
  note t3 = t[THEN conjunct2, THEN conjunct2, rule_format]
  have n: "0 < nrows merged_io_ex" "1 < nrows merged_io_ex" "2 < nrows merged_io_ex"
    by (simp_all add: nrows_def merged_io_ex_def)
  have k1: "key_count merged_io_ex (merge_key cfg_ex) (Str ''T1'') = 1"
    by (rule t1) simp
  have k2: "key_count merged_io_ex (merge_key cfg_ex) (Str ''T2'') = 1"
    by (rule t1) simp
  have k3: "key_count merged_io_ex (merge_key cfg_ex) (Str ''T3'') = 1"
    by (rule t1) simp
  have v: "value_at merged_io_ex (merge_key cfg_ex) 0 = Some (Str ''T1'')"
    "value_at merged_io_ex (merge_key cfg_ex) 1 = Some (Str ''T2'')"
    "value_at merged_io_ex (merge_key cfg_ex) 2 = Some (Str ''T3'')"
    by (simp_all add: value_at_def merged_io_ex_def cfg_ex_def)
  have q: "(''amount'', [Num 10, Num 5]) \<in> set (cols internal_ex)"
    and p: "(''amount'', [Num 12, Num 10]) \<in> set (cols provider_ex)"
    by (simp_all add: internal_ex_def provider_ex_def)
  have ne: "''amount'' \<noteq> merge_key cfg_ex" by (simp add: cfg_ex_def)
  note r0 = t3[OF n(1) v(1)] and r1 = t3[OF n(2) v(2)] and r2 = t3[OF n(3) v(3)]
  note c = carried_def text_column_def round53_small
  have m0: "value_at merged_io_ex (merge_indicator cfg_ex) 0 = Some (Str ''both'')"
    using r0[THEN conjunct2, THEN conjunct1] by simp
  have m1: "value_at merged_io_ex (merge_indicator cfg_ex) 1 = Some (Str ''right_only'')"
    using r1[THEN conjunct2, THEN conjunct1] by simp
  have m2: "value_at merged_io_ex (merge_indicator cfg_ex) 2 = Some (Str ''left_only'')"
    using r2[THEN conjunct2, THEN conjunct1] by simp
  note i0 = r0[THEN conjunct2, THEN conjunct2, THEN conjunct1, THEN bspec, OF q,
      unfolded prod.case, rule_format, OF ne]
  note i1 = r1[THEN conjunct2, THEN conjunct2, THEN conjunct1, THEN bspec, OF q,
      unfolded prod.case, rule_format, OF ne]
  note i2 = r2[THEN conjunct2, THEN conjunct2, THEN conjunct1, THEN bspec, OF q,
      unfolded prod.case, rule_format, OF ne]
  note p0 = r0[THEN conjunct2, THEN conjunct2, THEN conjunct2, THEN bspec, OF p,
      unfolded prod.case, rule_format, OF ne]
  note p1 = r1[THEN conjunct2, THEN conjunct2, THEN conjunct2, THEN bspec, OF p,
      unfolded prod.case, rule_format, OF ne]
  note p2 = r2[THEN conjunct2, THEN conjunct2, THEN conjunct2, THEN bspec, OF p,
      unfolded prod.case, rule_format, OF ne]
  have a0: "value_at merged_io_ex (internal_label cfg_ex provider_ex ''amount'') 0 = Some (Num 10)"
    using i0[THEN conjunct2, rule_format, of 0] by (simp add: c)
  have b0: "value_at merged_io_ex (provider_label cfg_ex internal_ex ''amount'') 0 = Some (Num 10)"
    using p0[THEN conjunct2, rule_format, of 1] by (simp add: c)
  have a1: "value_at merged_io_ex (internal_label cfg_ex provider_ex ''amount'') 1 = Some NaN"
    using i1[THEN conjunct1] by simp
  have b1: "value_at merged_io_ex (provider_label cfg_ex internal_ex ''amount'') 1 = Some (Num 12)"
    using p1[THEN conjunct2, rule_format, of 0] by (simp add: c)
  have a2: "value_at merged_io_ex (internal_label cfg_ex provider_ex ''amount'') 2 = Some (Num 5)"
    using i2[THEN conjunct2, rule_format, of 1] by (simp add: c)
  have b2: "value_at merged_io_ex (provider_label cfg_ex internal_ex ''amount'') 2 = Some NaN"
    using p2[THEN conjunct1] by simp
  from w g d e merge_io_ex dm k1 k2 k3 v m0 m1 m2 a0 b0 a1 b1 a2 b2 show ?thesis by blast
qed

section \<open>Properties of the reconciler\<close>

lemma suffixed_not_renamed: "n \<notin> set tr \<Longrightarrow> suffixed tr sfx n = n"
  by (simp add: suffixed_def)

lemma merge_succeeds:
  assumes wl: "wf_frame df_internal" and wr: "wf_frame df_provider"
    and fits: "config_fits cfg df_internal df_provider"
    and lk: "getitem df_internal (merge_key cfg) = Inr lk"
    and rk: "getitem df_provider (merge_key cfg) = Inr rk"
    and kc: "keys_compatible lk rk"
  shows "\<exists>merged. merge_dataframes df_internal df_provider cfg = Inr merged \<and>
           wf_frame merged \<and> unique_index merged"
proof -
  let ?on = "merge_key cfg" and ?ind = "merge_indicator cfg"
  let ?sl = "fst (merge_suffixes cfg)" and ?sr = "snd (merge_suffixes cfg)"
  let ?Ln = "columns df_internal" and ?Rn = "columns df_provider"
  let ?il = "internal_label cfg df_provider" and ?pl = "provider_label cfg df_internal"
  let ?A = "map ?il (filter (\<lambda>n. n \<noteq> ?on) ?Ln)"
  let ?B = "map ?pl (filter (\<lambda>n. n \<noteq> ?on) ?Rn)"
  let ?gL = "\<lambda>n. if n = ?on then ?on else ?il n"
  let ?li = "''_left_indicator''" and ?ri = "''_right_indicator''"
  let ?lnames = "map fst (cols df_internal) @ [?li]"
  let ?rnames = "map fst (filter (\<lambda>c. fst c \<noteq> ?on) (cols df_provider)) @ [?ri]"
  define tr where "tr = filter (\<lambda>c. c \<in> set ?rnames) ?lnames"
  let ?llabels = "map (suffixed tr ?sl) ?lnames"
  let ?rlabels = "map (suffixed tr ?sr) ?rnames"
  from fits have onL: "?on \<in> set ?Ln" and onR: "?on \<in> set ?Rn"
    and names: "?ind \<notin> set ?Ln" "?ind \<notin> set ?Rn"
      "?li \<notin> set ?Ln" "?li \<notin> set ?Rn" "?ri \<notin> set ?Ln" "?ri \<notin> set ?Rn"
    and dl: "distinct (?A @ ?B @ [?on, ?ind] @ [?li, ?ri])"
    by (simp_all add: config_fits_def merged_labels_def)
  from dl have dA: "distinct ?A" and dB: "distinct ?B" and AB: "set ?A \<inter> set ?B = {}"
    and onA: "?on \<notin> set ?A" and onB: "?on \<notin> set ?B"
    and liA: "?li \<notin> set ?A" and liB: "?li \<notin> set ?B"
    and riA: "?ri \<notin> set ?A" and riB: "?ri \<notin> set ?B"
    and dml: "distinct (merged_labels cfg df_internal df_provider)"
    by (auto simp: merged_labels_def)
  from wl have dLn: "distinct ?Ln" by (simp add: wf_frame_def)
  note lab = merge_labels[OF onL names(4,5), folded tr_def]
  from key_map_distinct[OF dLn dA onA]
  have kL: "distinct (map ?gL ?Ln)" "set (map ?gL ?Ln) \<subseteq> insert ?on (set ?A)" by simp_all
  have li_tr: "?li \<notin> set tr" and ri_tr: "?ri \<notin> set tr" and on_tr: "?on \<notin> set tr"
    using names by (simp_all add: lab(1))
  have onli: "?on \<noteq> ?li" and onri: "?on \<noteq> ?ri" using onL names by auto
  have LL: "map (suffixed tr ?sl) (map fst (cols df_internal)) = map ?gL ?Ln"
    unfolding columns_def[symmetric] by (rule map_cong[OF refl]) (rule lab(4))
  have RR: "map (suffixed tr ?sr) (map fst (filter (\<lambda>c. fst c \<noteq> ?on) (cols df_provider))) = ?B"
    unfolding map_fst_filter_key columns_def[symmetric]
    by (rule map_cong[OF refl]) (rule lab(3), simp_all)
  have ll: "?llabels = map ?gL ?Ln @ [?li]"
    using LL by (simp add: suffixed_not_renamed[OF li_tr])
  have rl: "?rlabels = ?B @ [?ri]"
    using RR by (simp add: suffixed_not_renamed[OF ri_tr])
  have rn: "set ?rnames = insert ?ri (set ?Rn - {?on})"
    unfolding map_fst_filter_key columns_def[symmetric] by auto
  have ln: "set ?lnames = insert ?li (set ?Ln)"
    unfolding columns_def[symmetric] by simp
  have inA: "n \<in> set ?A" if "n \<in> set ?Ln" "n \<noteq> ?on" "n \<notin> set ?Rn" for n
  proof -
    from that have "?il n = n" by (simp add: internal_label_def)
    with that show ?thesis by (force simp: image_iff)
  qed
  have inB: "n \<in> set ?B" if "n \<in> set ?Rn" "n \<noteq> ?on" "n \<notin> set ?Ln" for n
  proof -
    from that have "?pl n = n" by (simp add: provider_label_def)
    with that show ?thesis by (force simp: image_iff)
  qed
  have dll: "distinct ?llabels"
    unfolding ll using kL liA onli by auto
  have drl: "distinct ?rlabels"
    unfolding rl using dB riB by simp
  have cross1: "filter (\<lambda>l. l \<in> set ?rnames \<and> l \<notin> set tr) ?llabels = []"
  proof -
    have "\<not> (l \<in> set ?rnames \<and> l \<notin> set tr)" if "l \<in> set ?llabels" for l
    proof
      assume a: "l \<in> set ?rnames \<and> l \<notin> set tr"
      from that[unfolded ll] kL(2) have "l = ?li \<or> l = ?on \<or> l \<in> set ?A" by auto
      moreover from a[unfolded rn] have r: "l = ?ri \<or> (l \<in> set ?Rn \<and> l \<noteq> ?on)" by blast
      moreover have "l \<notin> set ?A" if "l \<in> set ?Rn" "l \<noteq> ?on"
      proof (cases "l \<in> set ?Ln")
        case True
        with that a show ?thesis by (simp add: lab(1))
      next
        case False
        from inB[OF that this] AB show ?thesis by blast
      qed
      ultimately show False using names riA onri onA by blast
    qed
    then show ?thesis unfolding filter_empty_conv by blast
  qed
  have cross2: "filter (\<lambda>l. l \<in> set ?lnames \<and> l \<notin> set tr) ?rlabels = []"
  proof -
    have "\<not> (l \<in> set ?lnames \<and> l \<notin> set tr)" if "l \<in> set ?rlabels" for l
    proof
      assume a: "l \<in> set ?lnames \<and> l \<notin> set tr"
      from that[unfolded rl] have "l = ?ri \<or> l \<in> set ?B" by auto
      moreover from a[unfolded ln] have r: "l = ?li \<or> l \<in> set ?Ln" by blast
      moreover have "l \<notin> set ?B" if "l \<in> set ?Ln"
      proof (cases "l = ?on")
        case True
        with onB show ?thesis by simp
      next
        case ne: False
        show ?thesis
        proof (cases "l \<in> set ?Rn")
          case True
          with that ne a show ?thesis by (simp add: lab(1))
        next
          case False
          from inA[OF that ne this] AB show ?thesis by blast
        qed
      qed
      ultimately show False using names liB by blast
    qed
    then show ?thesis unfolding filter_empty_conv by blast
  qed
  have sfx: "tr = [] \<or> ?sl \<noteq> [] \<or> ?sr \<noteq> []"
  proof (rule ccontr)
    assume "\<not> (tr = [] \<or> ?sl \<noteq> [] \<or> ?sr \<noteq> [])"
    then have a: "tr \<noteq> []" "?sl = []" "?sr = []" by simp_all
    from a(1) have "hd tr \<in> set tr" by (rule hd_in_set)
    then obtain c where "c \<in> set tr" ..
    with lab(1) have c: "c \<noteq> ?on" "c \<in> set ?Ln" "c \<in> set ?Rn" by auto
    with a have "?il c = c" "?pl c = c"
      by (simp_all add: internal_label_def provider_label_def)
    with c have "c \<in> set ?A" "c \<in> set ?B" by (force simp: image_iff)+
    with AB show False by auto
  qed
  have dups: "tr = [] \<or>
        new_dups ?llabels ?lnames @ new_dups ?rlabels ?rnames
        @ filter (\<lambda>l. l \<in> set ?rnames \<and> l \<notin> set tr) ?llabels
        @ filter (\<lambda>l. l \<in> set ?lnames \<and> l \<notin> set tr) ?rlabels = []"
    unfolding new_dups_distinct[OF dll] new_dups_distinct[OF drl] cross1 cross2 by simp
  have nm: "?li \<notin> set (?Ln @ ?Rn)" "?ri \<notin> set (?Ln @ ?Rn)" "?ind \<notin> set (?Ln @ ?Rn)"
    using names by simp_all
  note m = merge_InrI[OF lk rk kc nm, folded tr_def, OF sfx dups]
  show ?thesis
  proof (rule merge_columns[OF m wl wr dml])
    fix lk' rk'
    assume "index (assign
       \<lparr>index = [0..<length (join_indexers lk rk)],
        cols = side_cols ?on tr ?sl lk rk (join_indexers lk rk) fst (cols df_internal)
             @ side_cols ?on tr ?sr lk rk (join_indexers lk rk) snd
                 (filter (\<lambda>c. fst c \<noteq> ?on) (cols df_provider))\<rparr>
       ?ind (map indicator_value (join_indexers lk rk))) = [0..<length (join_indexers lk' rk')]"
      and "wf_frame (assign
       \<lparr>index = [0..<length (join_indexers lk rk)],
        cols = side_cols ?on tr ?sl lk rk (join_indexers lk rk) fst (cols df_internal)
             @ side_cols ?on tr ?sr lk rk (join_indexers lk rk) snd
                 (filter (\<lambda>c. fst c \<noteq> ?on) (cols df_provider))\<rparr>
       ?ind (map indicator_value (join_indexers lk rk)))"
    then show ?thesis using m by (simp add: unique_index_def)
  qed
qed

lemma match_loop_succeeds:
  "\<forall>p\<in>set ps. left_col p \<in> set (columns merged) \<and> right_col p \<in> set (columns merged) \<Longrightarrow>
     \<exists>mc. match_loop merged ps cond = Inr mc"
proof (induction ps arbitrary: cond)
  case Nil
  then show ?case by simp
next
  case (Cons p ps)
  then obtain l r where "getitem merged (left_col p) = Inr l" "getitem merged (right_col p) = Inr r"
    using getitem_present[of "left_col p" merged] getitem_present[of "right_col p" merged]
    by auto
  with Cons show ?case by simp
qed

lemma mismatch_pairs_succeeds:
  "\<forall>p\<in>set ps. left_col p \<in> set (columns merged) \<and> right_col p \<in> set (columns merged) \<Longrightarrow>
     \<exists>mps. mismatch_pairs merged ps = Inr mps"
proof (induction ps)
  case Nil
  then show ?case by simp
next
  case (Cons p ps)
  then obtain l r where "getitem merged (left_col p) = Inr l" "getitem merged (right_col p) = Inr r"
    using getitem_present[of "left_col p" merged] getitem_present[of "right_col p" merged]
    by auto
  moreover from Cons obtain mps where "mismatch_pairs merged ps = Inr mps" by auto
  ultimately show ?case by simp
qed

lemma classify_succeeds:
  assumes "merge_indicator cfg \<in> set (columns merged)"
    and "\<forall>p\<in>set (comparison_pairs cfg).
           left_col p \<in> set (columns merged) \<and> right_col p \<in> set (columns merged)"
  shows "\<exists>res. classify_merged_rows merged cfg = Inr res"
proof -
  from assms(1) obtain mk where mk: "getitem merged (merge_indicator cfg) = Inr mk"
    using getitem_present by blast
  from match_loop_succeeds[OF assms(2)] obtain mc where
    "match_loop merged (comparison_pairs cfg) (eq_scalar mk (Str (both (merge_status cfg)))) = Inr mc"
    by blast
  with mk have mc: "match_cond merged cfg = Inr mc"
    by (simp add: match_cond_def)
  from mismatch_pairs_succeeds[OF assms(2)] obtain mps where
    mps: "mismatch_pairs merged (comparison_pairs cfg) = Inr mps" by blast
  have "\<exists>mmc. mismatch_cond merged cfg = Inr mmc"
    by (cases mps) (simp_all add: mismatch_cond_def mk mps Let_def)
  then obtain mmc where mmc: "mismatch_cond merged cfg = Inr mmc" ..
  have st: "status_rows merged cfg s = Inr (select_rows (eq_scalar mk (Str s)) merged)" for s
    by (simp add: status_rows_def mk)
  show ?thesis
    by (simp add: classify_merged_rows_def mc mmc st)
qed

lemma map_fst_replace:
  "map fst (map (\<lambda>(n, x). if n = c then (n, d) else (n, x)) cs) = map fst cs"
  by (induction cs) auto

lemma columns_setitem:
  "columns (setitem df c v) = (if c \<in> set (columns df) then columns df else columns df @ [c])"
proof (cases "c \<in> set (columns df)")
  case True
  then have "cols (setitem df c v) =
      map (\<lambda>(n, x). if n = c then (n, replicate (nrows df) v) else (n, x)) (cols df)"
    by (simp add: setitem_def Let_def)
  then have "columns (setitem df c v) = columns df"
    unfolding columns_def by (simp only: map_fst_replace)
  with True show ?thesis by simp
next
  case False
  then show ?thesis by (simp add: setitem_def Let_def columns_def)
qed

lemma result_in_setitem: "c \<in> set (columns (setitem df c v))"
  by (simp add: columns_setitem)

lemma classify_Inr:
  assumes "classify_merged_rows merged cfg = Inr res"
  shows "\<exists>mc mk mmc.
    res = [(''matched'', setitem (select_rows mc merged) ''result''
               (Str (matched (result_labels cfg)))),
            (''only_internal'',
               setitem (select_rows (eq_scalar mk (Str (left_only (merge_status cfg)))) merged)
                 ''result'' (Str (only_internal (result_labels cfg)))),
            (''only_provider'',
               setitem (select_rows (eq_scalar mk (Str (right_only (merge_status cfg)))) merged)
                 ''result'' (Str (only_provider (result_labels cfg)))),
            (''mismatched'', setitem (select_rows mmc merged) ''result''
               (Str (mismatched (result_labels cfg))))]"
proof (cases "match_cond merged cfg")
  case (Inl e)
  with assms show ?thesis by (simp add: classify_merged_rows_def)
next
  case mc: (Inr mc)
  show ?thesis
  proof (cases "getitem merged (merge_indicator cfg)")
    case (Inl e)
    with assms mc show ?thesis by (simp add: classify_merged_rows_def status_rows_def)
  next
    case mk: (Inr mk)
    show ?thesis
    proof (cases "mismatch_cond merged cfg")
      case (Inl e)
      with assms mc mk show ?thesis by (simp add: classify_merged_rows_def status_rows_def)
    next
      case mmc: (Inr mmc)
      with assms mc mk have "res =
           [(''matched'', setitem (select_rows mc merged) ''result''
               (Str (matched (result_labels cfg)))),
            (''only_internal'',
               setitem (select_rows (eq_scalar mk (Str (left_only (merge_status cfg)))) merged)
                 ''result'' (Str (only_internal (result_labels cfg)))),
            (''only_provider'',
               setitem (select_rows (eq_scalar mk (Str (right_only (merge_status cfg)))) merged)
                 ''result'' (Str (only_provider (result_labels cfg)))),
            (''mismatched'', setitem (select_rows mmc merged) ''result''
               (Str (mismatched (result_labels cfg))))]"
        by (simp add: classify_merged_rows_def status_rows_def)
      then show ?thesis by blast
    qed
  qed
qed

lemma classify_result_cols:
  assumes "classify_merged_rows merged cfg = Inr res"
  shows "list_all (\<lambda>(key, df). ''result'' \<in> set (columns df) \<and>
            set (index df) \<subseteq> set (index merged)) res \<and> map fst res = category_names"
proof -
  have sub: "set (filter_by msk (index merged)) \<subseteq> set (index merged)" for msk
    using filter_by_subset[of _ msk "index merged"] by (rule subsetI)
  from classify_Inr[OF assms] obtain mc mk mmc where res: "res =
           [(''matched'', setitem (select_rows mc merged) ''result''
               (Str (matched (result_labels cfg)))),
            (''only_internal'',
               setitem (select_rows (eq_scalar mk (Str (left_only (merge_status cfg)))) merged)
                 ''result'' (Str (only_internal (result_labels cfg)))),
            (''only_provider'',
               setitem (select_rows (eq_scalar mk (Str (right_only (merge_status cfg)))) merged)
                 ''result'' (Str (only_provider (result_labels cfg)))),
            (''mismatched'', setitem (select_rows mmc merged) ''result''
               (Str (mismatched (result_labels cfg))))]"
    by blast
  show ?thesis
    unfolding res by (simp add: result_in_setitem category_names_def sub)
qed

lemma select_cols_succeeds:
  "set labels \<subseteq> set (map fst cs) \<Longrightarrow> \<exists>r. select_cols cs labels = Inr r"
proof (induction labels)
  case Nil
  then show ?case by simp
next
  case (Cons c labels)
  then have "filter (\<lambda>x. fst x = c) cs \<noteq> []"
    by (auto simp: filter_empty_conv)
  then obtain h hs where "filter (\<lambda>x. fst x = c) cs = h # hs"
    by (cases "filter (\<lambda>x. fst x = c) cs") auto
  moreover from Cons obtain r where "select_cols cs labels = Inr r" by auto
  ultimately show ?case by simp
qed

lemma finalize_df_succeeds:
  assumes "''result'' \<in> set (columns df)"
  shows "\<exists>df'. finalize_df cfg df = Inr df' \<and> index df' = index df"
proof -
  let ?cols0 = "filter (\<lambda>c. c \<noteq> merge_indicator cfg) (columns df)"
  let ?cols1 = "if ''result'' \<in> set ?cols0 then ?cols0 else ?cols0 @ [''result'']"
  have "set ?cols0 \<subseteq> set (columns df)" by auto
  with assms have "set ?cols1 \<subseteq> set (map fst (cols df))"
    unfolding columns_def by (simp del: set_filter set_map)
  from select_cols_succeeds[OF this] obtain sel where "select_cols (cols df) ?cols1 = Inr sel" ..
  then show ?thesis by (simp add: finalize_df_def Let_def)
qed

lemma finalize_loop_succeeds:
  "list_all (\<lambda>(key, df). ''result'' \<in> set (columns df)) res \<Longrightarrow>
     \<exists>final. finalize_loop cfg res = Inr final \<and> map fst final = map fst res \<and>
       map (\<lambda>kv. index (snd kv)) final = map (\<lambda>kv. index (snd kv)) res"
proof (induction res)
  case Nil
  then show ?case by simp
next
  case (Cons kv res)
  obtain key df where kv: "kv = (key, df)" by (cases kv)
  with Cons.prems have "''result'' \<in> set (columns df)" by simp
  from finalize_df_succeeds[OF this] obtain df' where
    "finalize_df cfg df = Inr df'" "index df' = index df" by blast
  moreover from Cons obtain final where "finalize_loop cfg res = Inr final"
    "map fst final = map fst res"
    "map (\<lambda>kv. index (snd kv)) final = map (\<lambda>kv. index (snd kv)) res"
    by auto
  ultimately show ?case using kv by simp
qed

lemma list_all_index:
  "list_all (\<lambda>(key, df). P (index df)) xs \<longleftrightarrow> list_all P (map (\<lambda>kv. index (snd kv)) xs)"
  by (induction xs) auto

lemma mem_columns: "(n, d) \<in> set (cols df) \<Longrightarrow> n \<in> set (columns df)"
  by (force simp: columns_def)

lemma reconcile_succeeds:
  assumes wl: "wf_frame df_internal" and wr: "wf_frame df_provider"
    and fits: "config_fits cfg df_internal df_provider"
    and lk: "getitem df_internal (merge_key cfg) = Inr lk"
    and rk: "getitem df_provider (merge_key cfg) = Inr rk"
    and kc: "keys_compatible lk rk"
  shows "\<exists>merged res final.
           merge_dataframes df_internal df_provider cfg = Inr merged \<and>
           wf_frame merged \<and> unique_index merged \<and>
           classify_merged_rows merged cfg = Inr res \<and>
           reconcile cfg df_internal df_provider = Inr final \<and>
           map fst final = category_names \<and>
           list_all (\<lambda>(key, df). set (index df) \<subseteq> set (index merged)) final"
proof -
  from fits have dl: "distinct (merged_labels cfg df_internal df_provider)"
    by (simp add: config_fits_def)
  from merge_succeeds[OF assms] obtain merged where
    m: "merge_dataframes df_internal df_provider cfg = Inr merged"
    and wm: "wf_frame merged" "unique_index merged" by blast
  have ind: "merge_indicator cfg \<in> set (columns merged)"
  proof (rule merge_columns[OF m wl wr dl])
    fix lk rk
    assume "(merge_indicator cfg, map indicator_value (join_indexers lk rk)) \<in> set (cols merged)"
    then show ?thesis by (rule mem_columns)
  qed
  have pairs: "\<forall>p\<in>set (comparison_pairs cfg).
           left_col p \<in> set (columns merged) \<and> right_col p \<in> set (columns merged)"
  proof
    fix p assume "p \<in> set (comparison_pairs cfg)"
    with fits have p: "base p \<in> set (columns df_internal)" "base p \<in> set (columns df_provider)"
      "base p \<noteq> merge_key cfg" "suffixes p = merge_suffixes cfg"
      by (auto simp: config_fits_def list_all_iff)
    from p(1,2) obtain dl dr where d: "(base p, dl) \<in> set (cols df_internal)"
      "(base p, dr) \<in> set (cols df_provider)"
      by (auto simp: columns_def)
    have l: "internal_label cfg df_provider (base p) = left_col p"
      using p by (simp add: internal_label_def left_col_def)
    have r: "provider_label cfg df_internal (base p) = right_col p"
      using p by (simp add: provider_label_def right_col_def)
    show "left_col p \<in> set (columns merged) \<and> right_col p \<in> set (columns merged)"
    proof (rule merge_columns[OF m wl wr dl])
      fix lk rk
      assume "\<And>n d. (n, d) \<in> set (cols df_internal) \<Longrightarrow> n \<noteq> merge_key cfg \<Longrightarrow>
         (internal_label cfg df_provider n, take_fill d (map fst (join_indexers lk rk)))
           \<in> set (cols merged)"
        and "\<And>n d. (n, d) \<in> set (cols df_provider) \<Longrightarrow> n \<noteq> merge_key cfg \<Longrightarrow>
         (provider_label cfg df_internal n, take_fill d (map snd (join_indexers lk rk)))
           \<in> set (cols merged)"
      from mem_columns[OF this(1)[OF d(1) p(3)]] mem_columns[OF this(2)[OF d(2) p(3)]] l r
      show ?thesis by simp
    qed
  qed
  from classify_succeeds[OF ind pairs] obtain res where
    c: "classify_merged_rows merged cfg = Inr res" ..
  from classify_result_cols[OF c] have rc: "list_all (\<lambda>(key, df). ''result'' \<in> set (columns df)) res"
    and ri: "list_all (\<lambda>(key, df). set (index df) \<subseteq> set (index merged)) res"
    and rn: "map fst res = category_names"
    by (auto simp: list_all_iff)
  from finalize_loop_succeeds[OF rc] obtain final where
    f: "finalize_loop cfg res = Inr final" "map fst final = map fst res"
    "map (\<lambda>kv. index (snd kv)) final = map (\<lambda>kv. index (snd kv)) res" by blast
  have fin: "list_all (\<lambda>(key, df). set (index df) \<subseteq> set (index merged)) final"
    using ri unfolding list_all_index[of "\<lambda>ix. set ix \<subseteq> set (index merged)"] f(3) .
  have r: "reconcile cfg df_internal df_provider = Inr final"
    by (simp add: reconcile_def finalize_results_def m c f(1))
  show ?thesis
    by (rule exI[of _ merged], rule exI[of _ res], rule exI[of _ final])
       (simp add: m wm c r f(2) rn fin)
qed

text \<open>
  C8, as stated, fails for datasets that have the key and the compared column but also a
  column named like the merge indicator: pandas refuses to merge them (ValueError).
\<close>

theorem reconcile_empty_inputs_indicator_column:
  "wf_frame empty_internal_ex \<and> wf_frame empty_marked_provider_ex \<and>
   nrows empty_internal_ex = 0 \<and> nrows empty_marked_provider_ex = 0 \<and>
   merge_key cfg_ex \<in> set (columns empty_internal_ex) \<and>
   merge_key cfg_ex \<in> set (columns empty_marked_provider_ex) \<and>
   comparison_pairs cfg_ex = [\<lparr>base = ''amount'', suffixes = (''_internal'', ''_provider'')\<rparr>] \<and>
   ''amount'' \<in> set (columns empty_internal_ex) \<and>
   ''amount'' \<in> set (columns empty_marked_provider_ex) \<and>
   reconcile cfg_ex empty_internal_ex empty_marked_provider_ex = Inl ValueError"
proof -
  have "merge_dataframes empty_internal_ex empty_marked_provider_ex cfg_ex = Inl ValueError"
    by (simp add: merge_dataframes_def Let_def getitem_def keys_compatible_def columns_def
        empty_internal_ex_def empty_marked_provider_ex_def cfg_ex_def)
  then have "reconcile cfg_ex empty_internal_ex empty_marked_provider_ex = Inl ValueError"
    by (simp add: reconcile_def)
  then show ?thesis
    by (simp add: wf_frame_def nrows_def columns_def empty_internal_ex_def
        empty_marked_provider_ex_def cfg_ex_def)
qed

text \<open>
  C8, as amended. Reconciling two datasets without rows, with unique column labels,
  under a configuration that fits them (\<open>config_fits\<close>: both have the key column; neither
  has a column named like the indicator, \<open>_left_indicator\<close> or \<open>_right_indicator\<close>; the
  labels of the merged table and the two reserved names are all different; every
  comparison pair names a column both datasets have, other than the key, with the
  suffixes of the merge), succeeds and returns the four category tables, each without
  rows.
\<close>

theorem reconcile_empty_inputs:
  assumes "wf_frame df_internal" "wf_frame df_provider"
    and "nrows df_internal = 0" "nrows df_provider = 0"
    and "config_fits cfg df_internal df_provider"
  shows "\<exists>final. reconcile cfg df_internal df_provider = Inr final \<and>
           map fst final = category_names \<and>
           list_all (\<lambda>(key, df). nrows df = 0) final"
proof -
  from assms(5) have "merge_key cfg \<in> set (columns df_internal)"
    "merge_key cfg \<in> set (columns df_provider)"
    by (simp_all add: config_fits_def)
  then obtain lk rk where g: "getitem df_internal (merge_key cfg) = Inr lk"
    "getitem df_provider (merge_key cfg) = Inr rk"
    using getitem_present by blast
  from getitem_wf(1)[OF assms(1) g(1)] getitem_wf(1)[OF assms(2) g(2)] assms(3,4)
  have e: "lk = []" "rk = []" by simp_all
  then have kc: "keys_compatible lk rk" by (simp add: keys_compatible_def)
  from assms(5) have dl: "distinct (merged_labels cfg df_internal df_provider)"
    by (simp add: config_fits_def)
  from reconcile_succeeds[OF assms(1,2,5) g kc] obtain merged final where
    m: "merge_dataframes df_internal df_provider cfg = Inr merged"
    and f: "reconcile cfg df_internal df_provider = Inr final" "map fst final = category_names"
    and sub: "list_all (\<lambda>(key, df). set (index df) \<subseteq> set (index merged)) final"
    by blast
  have "index merged = []"
  proof (rule merge_columns[OF m assms(1,2) dl])
    fix lk' rk'
    assume g': "getitem df_internal (merge_key cfg) = Inr lk'"
      "getitem df_provider (merge_key cfg) = Inr rk'"
      and idx: "index merged = [0..<length (join_indexers lk' rk')]"
    from g g' e have "lk' = []" "rk' = []" by simp_all
    with idx show ?thesis by (simp add: join_indexers_def)
  qed
  with sub have "list_all (\<lambda>(key, df). nrows df = 0) final"
    by (induction final) (auto simp: nrows_def)
  with f show ?thesis by blast
qed

theorem reconcile_empty_inputs_witness:
  "wf_frame empty_internal_ex \<and> wf_frame empty_provider_ex \<and>
   nrows empty_internal_ex = 0 \<and> nrows empty_provider_ex = 0 \<and>
   config_fits cfg_ex empty_internal_ex empty_provider_ex \<and>
   (\<exists>final. reconcile cfg_ex empty_internal_ex empty_provider_ex = Inr final \<and>
      map fst final = category_names \<and>
      list_all (\<lambda>(key, df). nrows df = 0) final)"
proof -
  have w: "wf_frame empty_internal_ex" "wf_frame empty_provider_ex"
    by (simp_all add: wf_frame_def empty_internal_ex_def empty_provider_ex_def columns_def nrows_def)
  have n: "nrows empty_internal_ex = 0" "nrows empty_provider_ex = 0"
    by (simp_all add: empty_internal_ex_def empty_provider_ex_def nrows_def)
  have f: "config_fits cfg_ex empty_internal_ex empty_provider_ex"
    by (simp add: config_fits_def merged_labels_def internal_label_def provider_label_def
        empty_internal_ex_def empty_provider_ex_def columns_def cfg_ex_def)
  from reconcile_empty_inputs[OF w n f] w n f show ?thesis by blast
qed

section \<open>Properties of the pipeline on a store\<close>

lemma tag_st_eq:
  "merged < length s \<Longrightarrow>
   tag_st s merged msk label =
     (Suc (length s),
      s @ [select_rows msk (s ! merged), setitem (select_rows msk (s ! merged)) ''result'' label])"
  by (simp add: tag_st_def alloc_def update_def Let_def nth_append list_update_append)


lemma extends_refl [simp]: "extends s s"
  by (simp add: extends_def)

lemma extends_append [simp]: "extends s (s @ ext)"
  by (simp add: extends_def)

lemma extends_trans:
  assumes "extends s s1" "extends s1 s2"
  shows "extends s s2"
proof -
  from assms have l: "length s \<le> length s1" "length s1 \<le> length s2"
    and t: "take (length s) s1 = s" "take (length s1) s2 = s1"
    by (simp_all add: extends_def)
  have "take (length s) s2 = take (length s) (take (length s1) s2)"
    using l(1) by (simp add: min_def)
  also have "\<dots> = s" by (simp only: t)
  finally show ?thesis using l by (simp add: extends_def)
qed

lemma extends_length: "extends s s' \<Longrightarrow> length s \<le> length s'"
  by (simp add: extends_def)

lemma extends_nth:
  assumes "extends s s'" "a < length s"
  shows "s' ! a = s ! a"
proof -
  from assms(1) have "take (length s) s' = s" by (simp add: extends_def)
  then have "take (length s) s' ! a = s ! a" by simp
  with assms(2) show ?thesis by simp
qed

lemma merge_st_spec:
  assumes "merge_dataframes_st s i p cfg = (r, s')"
  shows "extends s s' \<and>
         (\<forall>e. r = Inl e \<longrightarrow> merge_dataframes (s ! i) (s ! p) cfg = Inl e) \<and>
         (\<forall>a. r = Inr a \<longrightarrow> a < length s' \<and> length s \<le> a \<and>
            merge_dataframes (s ! i) (s ! p) cfg = Inr (s' ! a))"
proof (cases "merge_dataframes (s ! i) (s ! p) cfg")
  case (Inl e)
  with assms have "r = Inl e" "s' = s" by (simp_all add: merge_dataframes_st_def)
  with Inl show ?thesis by simp
next
  case (Inr m)
  with assms have "r = Inr (length s)" "s' = s @ [m]"
    by (simp_all add: merge_dataframes_st_def alloc_def)
  with Inr show ?thesis by simp
qed

lemma classify_st_spec:
  assumes st: "classify_merged_rows_st s a cfg = (r, s')" and a: "a < length s"
  shows "extends s s' \<and>
         (\<forall>e. r = Inl e \<longrightarrow> classify_merged_rows (s ! a) cfg = Inl e) \<and>
         (\<forall>refs. r = Inr refs \<longrightarrow>
            classify_merged_rows (s ! a) cfg = Inr (deref s' refs) \<and>
            list_all (\<lambda>(key, b). b < length s') refs)"
proof (cases "match_cond (s ! a) cfg")
  case (Inl e)
  with st have "r = Inl e" "s' = s" by (simp_all add: classify_merged_rows_st_def)
  with Inl show ?thesis by (simp add: classify_merged_rows_def)
next
  case mc: (Inr mc)
  let ?x1 = "select_rows mc (s ! a)"
  let ?t1 = "setitem ?x1 ''result'' (Str (matched (result_labels cfg)))"
  let ?s1 = "s @ [?x1, ?t1]"
  have t1: "tag_st s a mc (Str (matched (result_labels cfg))) = (Suc (length s), ?s1)"
    using a by (rule tag_st_eq)
  have a1: "a < length ?s1" "?s1 ! a = s ! a" using a by (simp_all add: nth_append)
  show ?thesis
  proof (cases "getitem (s ! a) (merge_indicator cfg)")
    case (Inl e)
    have "classify_merged_rows_st s a cfg = (Inl e, ?s1)"
      unfolding classify_merged_rows_st_def mc sum.case t1 Let_def prod.case a1(2) Inl ..
    with st have "r = Inl e" "s' = ?s1" by simp_all
    moreover have "extends s ?s1" by (rule extends_append)
    moreover have "classify_merged_rows (s ! a) cfg = Inl e"
      using mc Inl by (simp add: classify_merged_rows_def status_rows_def)
    ultimately show ?thesis by simp
  next
    case mk: (Inr mk)
    let ?x2 = "select_rows (eq_scalar mk (Str (left_only (merge_status cfg)))) (s ! a)"
    let ?t2 = "setitem ?x2 ''result'' (Str (only_internal (result_labels cfg)))"
    let ?s2 = "?s1 @ [?x2, ?t2]"
    have t2: "tag_st ?s1 a (eq_scalar mk (Str (left_only (merge_status cfg))))
                (Str (only_internal (result_labels cfg))) = (Suc (length ?s1), ?s2)"
      using tag_st_eq[OF a1(1)] a1(2) by simp
    have a2: "a < length ?s2" "?s2 ! a = s ! a" using a by (simp_all add: nth_append)
    let ?x3 = "select_rows (eq_scalar mk (Str (right_only (merge_status cfg)))) (s ! a)"
    let ?t3 = "setitem ?x3 ''result'' (Str (only_provider (result_labels cfg)))"
    let ?s3 = "?s2 @ [?x3, ?t3]"
    have t3: "tag_st ?s2 a (eq_scalar mk (Str (right_only (merge_status cfg))))
                (Str (only_provider (result_labels cfg))) = (Suc (length ?s2), ?s3)"
      using tag_st_eq[OF a2(1)] a2(2) by simp
    have a3: "a < length ?s3" "?s3 ! a = s ! a" using a by (simp_all add: nth_append)
    have pre: "classify_merged_rows_st s a cfg =
       (case mismatch_cond (s ! a) cfg of
          Inl e \<Rightarrow> (Inl e, ?s3)
        | Inr mmc \<Rightarrow>
            (let (mm, s4) = tag_st ?s3 a mmc (Str (mismatched (result_labels cfg))) in
             (Inr [(''matched'', Suc (length s)), (''only_internal'', Suc (length ?s1)),
                   (''only_provider'', Suc (length ?s2)), (''mismatched'', mm)], s4)))"
      unfolding classify_merged_rows_st_def mc sum.case t1 Let_def prod.case a1(2) mk t2
        a2(2) t3 a3(2) ..
    show ?thesis
    proof (cases "mismatch_cond (s ! a) cfg")
      case (Inl e)
      with st pre have "r = Inl e" "s' = ?s3" by simp_all
      moreover have "extends s ?s3" using extends_append[of s "[?x1, ?t1, ?x2, ?t2, ?x3, ?t3]"]
        by simp
      moreover have "classify_merged_rows (s ! a) cfg = Inl e"
        using mc mk Inl by (simp add: classify_merged_rows_def status_rows_def)
      ultimately show ?thesis by simp
    next
      case mmc: (Inr mmc)
      let ?x4 = "select_rows mmc (s ! a)"
      let ?t4 = "setitem ?x4 ''result'' (Str (mismatched (result_labels cfg)))"
      let ?s4 = "?s3 @ [?x4, ?t4]"
      have t4: "tag_st ?s3 a mmc (Str (mismatched (result_labels cfg))) = (Suc (length ?s3), ?s4)"
        using tag_st_eq[OF a3(1)] a3(2) by simp
      let ?refs = "[(''matched'', Suc (length s)), (''only_internal'', Suc (length ?s1)),
                   (''only_provider'', Suc (length ?s2)), (''mismatched'', Suc (length ?s3))]"
      from st pre mmc t4 have r: "r = Inr ?refs" "s' = ?s4" by simp_all
      have e: "extends s ?s4"
        using extends_append[of s "[?x1, ?t1, ?x2, ?t2, ?x3, ?t3, ?x4, ?t4]"] by simp
      have d: "deref ?s4 ?refs = [(''matched'', ?t1), (''only_internal'', ?t2),
                 (''only_provider'', ?t3), (''mismatched'', ?t4)]"
        by (simp add: deref_def nth_append)
      have c: "classify_merged_rows (s ! a) cfg = Inr (deref ?s4 ?refs)"
        unfolding d using mc mk mmc by (simp add: classify_merged_rows_def status_rows_def)
      have l: "list_all (\<lambda>(key, b). b < length ?s4) ?refs" by simp
      from r e c l show ?thesis by simp
    qed
  qed
qed


lemma deref_extends:
  "extends s s' \<Longrightarrow> list_all (\<lambda>(key, b). b < length s) refs \<Longrightarrow> deref s' refs = deref s refs"
  by (induction refs) (auto simp: deref_def extends_nth)

lemma refs_extends:
  "extends s s' \<Longrightarrow> list_all (\<lambda>(key, b). b < length s) refs \<Longrightarrow>
     list_all (\<lambda>(key, b). b < length s') refs"
  by (induction refs) (auto dest: extends_length)

lemma finalize_loop_st_spec:
  "list_all (\<lambda>(key, b). b < length s) refs \<Longrightarrow> finalize_loop_st cfg refs s = (r, s') \<Longrightarrow>
     extends s s' \<and>
     (\<forall>e. r = Inl e \<longrightarrow> finalize_loop cfg (deref s refs) = Inl e) \<and>
     (\<forall>final. r = Inr final \<longrightarrow> finalize_loop cfg (deref s refs) = Inr (deref s' final))"
proof (induction refs arbitrary: s r s')
  case Nil
  then show ?case by (auto simp: deref_def)
next
  case (Cons kv rest)
  obtain key a where kv: "kv = (key, a)" by (cases kv)
  from Cons.prems(1) kv have a: "a < length s"
    and rest: "list_all (\<lambda>(key, b). b < length s) rest" by simp_all
  let ?df = "s ! a"
  let ?cols0 = "filter (\<lambda>c. c \<noteq> merge_indicator cfg) (columns ?df)"
  let ?cols1 = "if ''result'' \<in> set ?cols0 then ?cols0 else ?cols0 @ [''result'']"
  have d: "deref s (kv # rest) = (key, ?df) # deref s rest"
    by (simp add: deref_def kv)
  show ?case
  proof (cases "select_cols (cols ?df) ?cols1")
    case (Inl e)
    then have "finalize_loop_st cfg (kv # rest) s = (Inl e, s)"
      by (simp add: kv Let_def)
    with Cons.prems(2) have "r = Inl e" "s' = s" by simp_all
    moreover from Inl have "finalize_df cfg ?df = Inl e"
      by (simp add: finalize_df_def Let_def)
    ultimately show ?thesis by (simp add: d)
  next
    case (Inr sel)
    let ?F = "\<lparr>index = index ?df,
               cols = map (\<lambda>(n, d). (rename_label (rename_columns cfg) n, d)) sel\<rparr>"
    let ?s2 = "s @ [?F]"
    from Inr have fd: "finalize_df cfg ?df = Inr ?F"
      by (simp add: finalize_df_def Let_def)
    obtain r3 s3 where st3: "finalize_loop_st cfg rest ?s2 = (r3, s3)"
      by (cases "finalize_loop_st cfg rest ?s2")
    have step: "finalize_loop_st cfg (kv # rest) s =
        (case r3 of Inl e \<Rightarrow> (Inl e, s3) | Inr final \<Rightarrow> (Inr ((key, length s) # final), s3))"
      using Inr st3
      by (simp add: kv Let_def alloc_def update_def rename_frame_def split: sum.splits)
    have e2: "extends s ?s2" by (rule extends_append)
    note rest2 = refs_extends[OF e2 rest]
    from Cons.IH[OF rest2 st3] have e3: "extends ?s2 s3"
      and err: "\<And>e. r3 = Inl e \<Longrightarrow> finalize_loop cfg (deref ?s2 rest) = Inl e"
      and ok: "\<And>final. r3 = Inr final \<Longrightarrow>
                 finalize_loop cfg (deref ?s2 rest) = Inr (deref s3 final)"
      by simp_all
    have dr: "deref ?s2 rest = deref s rest" by (rule deref_extends[OF e2 rest])
    have es: "extends s s3" by (rule extends_trans[OF e2 e3])
    have F: "s3 ! length s = ?F" using extends_nth[OF e3, of "length s"] by simp
    show ?thesis
    proof (cases r3)
      case (Inl e)
      with step Cons.prems(2) have "r = Inl e" "s' = s3" by simp_all
      with es err[OF Inl] fd show ?thesis by (simp add: d dr)
    next
      case (Inr final)
      with step Cons.prems(2) have rs: "r = Inr ((key, length s) # final)" "s' = s3" by simp_all
      have dd: "deref s3 ((key, length s) # final) = (key, ?F) # deref s3 final"
        by (simp add: deref_def F)
      have "finalize_loop cfg (deref s (kv # rest)) = Inr ((key, ?F) # deref s3 final)"
        unfolding d using fd ok[OF Inr] by (simp add: dr)
      with es rs dd show ?thesis by simp
    qed
  qed
qed

lemma reconcile_st_spec:
  assumes i: "df_internal < length s" and p: "df_provider < length s"
    and st: "reconcile_st cfg s df_internal df_provider = (r, s')"
  shows "extends s s' \<and>
     (\<forall>e. r = Inl e \<longrightarrow> reconcile cfg (s ! df_internal) (s ! df_provider) = Inl e) \<and>
     (\<forall>refs. r = Inr refs \<longrightarrow>
        reconcile cfg (s ! df_internal) (s ! df_provider) = Inr (deref s' refs))"
proof -
  obtain r1 s1 where m: "merge_dataframes_st s df_internal df_provider cfg = (r1, s1)"
    by (cases "merge_dataframes_st s df_internal df_provider cfg")
  note ms = merge_st_spec[OF m]
  show ?thesis
  proof (cases r1)
    case (Inl e)
    with st m have "r = Inl e" "s' = s1" by (simp_all add: reconcile_st_def)
    with ms Inl show ?thesis by (simp add: reconcile_def)
  next
    case (Inr a)
    with ms have a: "a < length s1"
      and pm: "merge_dataframes (s ! df_internal) (s ! df_provider) cfg = Inr (s1 ! a)"
      and e1: "extends s s1" by simp_all
    obtain r2 s2 where c: "classify_merged_rows_st s1 a cfg = (r2, s2)"
      by (cases "classify_merged_rows_st s1 a cfg")
    note cs = classify_st_spec[OF c a]
    from cs have e2: "extends s1 s2" by simp
    show ?thesis
    proof (cases r2)
      case (Inl e)
      with st m c Inr have "r = Inl e" "s' = s2" by (simp_all add: reconcile_st_def)
      with cs Inl pm extends_trans[OF e1 e2] show ?thesis by (simp add: reconcile_def)
    next
      case refs: (Inr refs)
      with cs have pc: "classify_merged_rows (s1 ! a) cfg = Inr (deref s2 refs)"
        and v: "list_all (\<lambda>(key, b). b < length s2) refs" by simp_all
      from st m c Inr refs have f: "finalize_loop_st cfg refs s2 = (r, s')"
        by (simp add: reconcile_st_def finalize_results_st_def)
      note fs = finalize_loop_st_spec[OF v f]
      from fs have e3: "extends s2 s'" by simp
      have "extends s s'" by (rule extends_trans[OF extends_trans[OF e1 e2] e3])
      with fs pm pc show ?thesis by (simp add: reconcile_def finalize_results_def)
    qed
  qed
qed

text \<open>
  C9. A reconciliation run, whether it succeeds or fails, leaves the two input tables
  in the store as they were: the merge builds a new table, the classifier tags copies
  of the selected rows, and the finalizer renames the new tables it selected.
\<close>

theorem reconcile_leaves_inputs_unchanged:
  assumes "df_internal < length s" "df_provider < length s"
    and "reconcile_st cfg s df_internal df_provider = (r, s')"
  shows "s' ! df_internal = s ! df_internal \<and> s' ! df_provider = s ! df_provider"
proof -
  from reconcile_st_spec[OF assms] have "extends s s'" by simp
  from extends_nth[OF this assms(1)] extends_nth[OF this assms(2)] show ?thesis by simp
qed


lemma classify_io_ex: "classify_merged_rows merged_io_ex cfg_ex = Inr classified_io_ex"
  by (simp add: classify_merged_rows_def match_cond_def mismatch_cond_def status_rows_def
      getitem_def merged_io_ex_def cfg_ex_def classified_io_ex_def left_col_def right_col_def
      eq_scalar_def series_eq_def series_ne_def series_and_def series_or_def cell_eq_def
      cell_ne_def select_rows_def filter_by_def setitem_def columns_def nrows_def)

lemma finalize_io_ex: "finalize_results classified_io_ex cfg_ex = Inr finalized_io_ex"
  by (simp add: finalize_results_def finalize_df_def classified_io_ex_def finalized_io_ex_def
      cfg_ex_def columns_def rename_label_def Let_def)

lemma reconcile_io_ex: "reconcile cfg_ex internal_ex provider_ex = Inr finalized_io_ex"
  by (simp add: reconcile_def merge_io_ex classify_io_ex finalize_io_ex)

theorem reconcile_leaves_inputs_unchanged_witness:
  "0 < length store_ex \<and> 1 < length store_ex \<and>
   reconcile_st cfg_ex store_ex 0 1 =
     (fst (reconcile_st cfg_ex store_ex 0 1), snd (reconcile_st cfg_ex store_ex 0 1)) \<and>
   snd (reconcile_st cfg_ex store_ex 0 1) ! 0 = internal_ex \<and>
   snd (reconcile_st cfg_ex store_ex 0 1) ! 1 = provider_ex \<and>
   map_sum id (deref (snd (reconcile_st cfg_ex store_ex 0 1)))
     (fst (reconcile_st cfg_ex store_ex 0 1)) = Inr finalized_io_ex"
proof -
  let ?run = "reconcile_st cfg_ex store_ex 0 1"
  have l: "0 < length store_ex" "1 < length store_ex" by (simp_all add: store_ex_def)
  have run: "?run = (fst ?run, snd ?run)" by simp
  from reconcile_leaves_inputs_unchanged[OF l run]
  have u: "snd ?run ! 0 = internal_ex" "snd ?run ! 1 = provider_ex"
    by (simp_all add: store_ex_def)
  have p: "reconcile cfg_ex (store_ex ! 0) (store_ex ! 1) = Inr finalized_io_ex"
    by (simp add: store_ex_def reconcile_io_ex)
  from reconcile_st_spec[OF l run] p
  have "map_sum id (deref (snd ?run)) (fst ?run) = Inr finalized_io_ex"
    by (cases "fst ?run") simp_all
  with l run u show ?thesis by blast
qed


end
